theory Spec2Isabelle
  imports Complex_Main "HOL-Library.Sublist" "HOL-Library.Monad_Syntax"
begin

section \<open>JavaScript strings and the regular expressions of the transcription route\<close>

text \<open>
  A JavaScript string is a sequence of UTF-16 code units. The model keeps them as integers
  (each from 0 to 65535), so that \<^verbatim>\<open>String.fromCharCode\<close> and the
  Unicode members of the class \<^verbatim>\<open>\s\<close> are what they are in the engine.
  \<open>str\<close> turns an ASCII literal of the source into its code units.
\<close>

type_synonym jsstring = "int list"

definition str :: "string \<Rightarrow> jsstring" where
  "str s = map of_char s"

text \<open>The character classes \<^verbatim>\<open>\d\<close>, \<^verbatim>\<open>\s\<close> (ECMAScript
  WhiteSpace and LineTerminator) and \<^verbatim>\<open>[a-zA-Z0-9_-]\<close>; the dot matches
  everything but a line terminator.\<close>

definition isDigit :: "int \<Rightarrow> bool" where
  "isDigit c \<longleftrightarrow> 48 \<le> c \<and> c \<le> 57"

definition isWhiteSpace :: "int \<Rightarrow> bool" where
  "isWhiteSpace c \<longleftrightarrow>
     (9 \<le> c \<and> c \<le> 13) \<or> c = 32 \<or> c = 160 \<or> c = 5760 \<or> (8192 \<le> c \<and> c \<le> 8202) \<or>
     c = 8232 \<or> c = 8233 \<or> c = 8239 \<or> c = 8287 \<or> c = 12288 \<or> c = 65279"

definition isLineTerminator :: "int \<Rightarrow> bool" where
  "isLineTerminator c \<longleftrightarrow> c = 10 \<or> c = 13 \<or> c = 8232 \<or> c = 8233"

definition isIdChar :: "int \<Rightarrow> bool" where
  "isIdChar c \<longleftrightarrow>
     (97 \<le> c \<and> c \<le> 122) \<or> (65 \<le> c \<and> c \<le> 90) \<or> (48 \<le> c \<and> c \<le> 57) \<or> c = 95 \<or> c = 45"

text \<open>A literal of a pattern, matched at the start of the input: the rest of the input
  when it is there.\<close>

fun lit :: "jsstring \<Rightarrow> jsstring \<Rightarrow> jsstring option" where
  "lit [] s = Some s"
| "lit (p # ps) [] = None"
| "lit (p # ps) (c # cs) = (if p = c then lit ps cs else None)"

text \<open>\<^verbatim>\<open>String.prototype.match\<close> with a pattern that has no \<^verbatim>\<open>g\<close>
  flag: the pattern is tried at every position from the left, and the leftmost match wins.\<close>

fun searchFrom :: "(jsstring \<Rightarrow> 'a option) \<Rightarrow> jsstring \<Rightarrow> 'a option" where
  "searchFrom re [] = re []"
| "searchFrom re (c # cs) = (case re (c # cs) of Some m \<Rightarrow> Some m | None \<Rightarrow> searchFrom re cs)"

section \<open>Entity resolver: \<^verbatim>\<open>extractVideoId\<close>\<close>

text \<open>
  \<^verbatim>\<open>
  function extractVideoId(url: string): string | null {
    const patterns = [
      /(?:v=|\/v\/|youtu\.be\/|\/embed\/)([a-zA-Z0-9_-]{11})/,
      /^([a-zA-Z0-9_-]{11})$/,
    ]
    for (const pattern of patterns) {
      const match = url.match(pattern)
      if (match) return match[1]
    }
    return null
  }
  \<close>
\<close>

definition markers :: "jsstring list" where
  "markers = [str ''v='', str ''/v/'', str ''youtu.be/'', str ''/embed/'']"

definition validId :: "jsstring \<Rightarrow> bool" where
  "validId v \<longleftrightarrow> length v = 11 \<and> list_all isIdChar v"

text \<open>The first pattern at one position: the alternatives in their order, each followed
  by exactly eleven characters of the class, which are the capture.\<close>

fun urlPatternAt :: "jsstring list \<Rightarrow> jsstring \<Rightarrow> jsstring option" where
  "urlPatternAt [] s = None"
| "urlPatternAt (m # ms) s =
     (case lit m s of
        Some r \<Rightarrow> if validId (take 11 r) then Some (take 11 r) else urlPatternAt ms s
      | None \<Rightarrow> urlPatternAt ms s)"

text \<open>The second pattern is anchored at both ends: the whole input is the capture.\<close>

definition barePattern :: "jsstring \<Rightarrow> jsstring option" where
  "barePattern s = (if validId s then Some s else None)"

text \<open>\<open>firstMarkerAt n s\<close>: none of the alternatives stands at any of the first \<open>n\<close>
  positions of \<open>s\<close>, so that a marker at position \<open>n\<close> is the first one of the
  input.\<close>

fun firstMarkerAt :: "nat \<Rightarrow> jsstring \<Rightarrow> bool" where
  "firstMarkerAt 0 s = True"
| "firstMarkerAt (Suc n) [] = True"
| "firstMarkerAt (Suc n) (c # cs) = (list_all (\<lambda>m. lit m (c # cs) = None) markers \<and> firstMarkerAt n cs)"

definition extractVideoId :: "jsstring \<Rightarrow> jsstring option" where
  "extractVideoId url =
     (case searchFrom (urlPatternAt markers) url of
        Some v \<Rightarrow> Some v
      | None \<Rightarrow> barePattern url)"

section \<open>JavaScript numbers\<close>

text \<open>
  The numbers of the route are non-negative: a value is \<open>NaN\<close> or a non-negative
  integer below the overflow threshold of a double. Arithmetic rounds as IEEE 754 double
  precision does (53 bits of significand, to nearest, ties to even): \<open>toDouble (a, b)\<close>
  is the double nearest to the fraction \<open>a / b\<close>, again as a fraction. Overflow to
  \<^verbatim>\<open>Infinity\<close> (more than 308 digits) is outside the model.
\<close>

datatype jsnum = NaN | Num int

function bitLength :: "int \<Rightarrow> nat" where
  "bitLength n = (if n \<le> 0 then 0 else Suc (bitLength (n div 2)))"
  by pat_completeness auto
termination
  by (relation "measure nat") auto

declare bitLength.simps [simp del]

text \<open>\<open>ilog2 a b\<close> is the floor of the binary logarithm of \<open>a / b\<close>, for positive
  \<open>a\<close> and \<open>b\<close>.\<close>

definition ilog2 :: "int \<Rightarrow> int \<Rightarrow> int" where
  "ilog2 a b =
     (let k = int (bitLength a) - int (bitLength b)
      in if b * 2 ^ nat k \<le> a * 2 ^ nat (- k) then k else k - 1)"

definition roundHalfEven :: "int \<Rightarrow> int \<Rightarrow> int" where
  "roundHalfEven a b =
     (let q = a div b; r = a mod b
      in if 2 * r < b then q else if b < 2 * r then q + 1 else if even q then q else q + 1)"

definition toDouble :: "int \<times> int \<Rightarrow> int \<times> int" where
  "toDouble x =
     (case x of (a, b) \<Rightarrow>
        if a = 0 then (0, 1)
        else let e = ilog2 a b; up = nat (52 - e); down = nat (e - 52)
             in (roundHalfEven (a * 2 ^ up) (b * 2 ^ down) * 2 ^ down, 2 ^ up))"

text \<open>\<^verbatim>\<open>Math.floor(x / d)\<close> for an integer \<open>x\<close> and a positive constant
  \<open>d\<close>: the quotient is rounded to a double first.\<close>

definition floorDiv :: "jsnum \<Rightarrow> int \<Rightarrow> jsnum" where
  "floorDiv x d = (case x of NaN \<Rightarrow> NaN | Num n \<Rightarrow> (case toDouble (n, d) of (a, b) \<Rightarrow> Num (a div b)))"

text \<open>The remainder \<^verbatim>\<open>x % d\<close> is exact in double precision.\<close>

definition remainder :: "jsnum \<Rightarrow> int \<Rightarrow> jsnum" where
  "remainder x d = (case x of NaN \<Rightarrow> NaN | Num n \<Rightarrow> Num (n mod d))"

definition digitsValue :: "jsstring \<Rightarrow> int" where
  "digitsValue ds = foldl (\<lambda>a c. 10 * a + (c - 48)) 0 ds"

text \<open>\<^verbatim>\<open>parseInt\<close> on a capture of \<^verbatim>\<open>(\d+)\<close>: the decimal value, as
  the nearest double. (A capture of more than 308 digits is \<^verbatim>\<open>Infinity\<close> in the
  engine and a finite number here.)\<close>

definition parseInt :: "jsstring \<Rightarrow> jsnum" where
  "parseInt ds = (case toDouble (digitsValue ds, 1) of (a, b) \<Rightarrow> Num (a div b))"

text \<open>\<^verbatim>\<open>parseFloat\<close> on a capture of \<^verbatim>\<open>([\d.]+)\<close>: the longest prefix
  that is a decimal literal (digits, then optionally a dot and digits, with a digit
  somewhere), as the nearest double; \<open>None\<close> is \<^verbatim>\<open>NaN\<close>.\<close>

definition parseFloat :: "jsstring \<Rightarrow> (int \<times> int) option" where
  "parseFloat s =
     (let ip = takeWhile isDigit s;
          fp = (case dropWhile isDigit s of [] \<Rightarrow> [] | c # cs \<Rightarrow> if c = 46 then takeWhile isDigit cs else [])
      in if ip = [] \<and> fp = [] then None
         else Some (toDouble (digitsValue (ip @ fp), 10 ^ length fp)))"

text \<open>\<^verbatim>\<open>Math.floor(parseFloat(s) * 1000)\<close>: the product is rounded to a double
  before the floor is taken.\<close>

definition floorMillis :: "jsstring \<Rightarrow> jsnum" where
  "floorMillis s =
     (case parseFloat s of
        None \<Rightarrow> NaN
      | Some (a, b) \<Rightarrow> (case toDouble (a * 1000, b) of (c, d) \<Rightarrow> Num (c div d)))"

text \<open>\<^verbatim>\<open>String.fromCharCode\<close> keeps the low 16 bits of its argument.\<close>

definition fromCharCode :: "jsnum \<Rightarrow> int" where
  "fromCharCode x = (case x of NaN \<Rightarrow> 0 | Num n \<Rightarrow> n mod 65536)"

text \<open>\<^verbatim>\<open>Number.prototype.toString\<close> on the values above: the decimal digits of a
  non-negative integer below \<open>2\<^sup>5\<^sup>3\<close>, where every integer is a double and is printed
  exactly. (From there on the engine prints the shortest digits that read back as the same
  double, and from \<open>10\<^sup>2\<^sup>1\<close> on it uses the exponent notation; \<open>toDecimal\<close>
  gives the exact digits there, and the statements about the assembler stay below
  \<open>2\<^sup>5\<^sup>3\<close>.)\<close>

function toDecimal :: "int \<Rightarrow> jsstring" where
  "toDecimal n = (if n < 10 then [48 + n] else toDecimal (n div 10) @ [48 + n mod 10])"
  by pat_completeness auto
termination
  by (relation "measure nat") auto

declare toDecimal.simps [simp del]

definition toString :: "jsnum \<Rightarrow> jsstring" where
  "toString x = (case x of NaN \<Rightarrow> str ''NaN'' | Num n \<Rightarrow> toDecimal n)"

text \<open>\<^verbatim>\<open>String.prototype.padStart\<close> with a non-empty filler.\<close>

definition padStart :: "nat \<Rightarrow> jsstring \<Rightarrow> jsstring \<Rightarrow> jsstring" where
  "padStart targetLength padString s =
     take (targetLength - length s) (concat (replicate (targetLength - length s) padString)) @ s"

section \<open>Global patterns: \<^verbatim>\<open>exec\<close> loops and \<^verbatim>\<open>replace\<close>\<close>

text \<open>
  A pattern is modelled by what it does at one position: the captures (or the
  replacement) and the input left after the match. Every quantifier of the route's
  patterns is followed by a character outside its class, so giving characters back never
  helps: the greedy runs are \<open>takeWhile\<close>/\<open>dropWhile\<close>, and a lazy run stops at the
  first place where the rest of the pattern matches.

  With the \<^verbatim>\<open>g\<close> flag, \<^verbatim>\<open>exec\<close> resumes at \<^verbatim>\<open>lastIndex\<close>, the end
  of the previous match. \<open>execAll re 0 s\<close> lists the successive results of
  \<^verbatim>\<open>while ((match = re.exec(s)) !== null)\<close>; its second argument counts the
  characters still covered by the previous match. (Every pattern here starts with a
  literal, so no match is empty.)
\<close>

fun execAll :: "(jsstring \<Rightarrow> ('m \<times> jsstring) option) \<Rightarrow> nat \<Rightarrow> jsstring \<Rightarrow> 'm list" where
  "execAll re k [] = []"
| "execAll re (Suc k) (c # cs) = execAll re k cs"
| "execAll re 0 (c # cs) =
     (case re (c # cs) of
        None \<Rightarrow> execAll re 0 cs
      | Some (m, rest) \<Rightarrow> m # execAll re (length cs - length rest) cs)"

text \<open>\<^verbatim>\<open>String.prototype.replace\<close> with a global pattern: every match, from the
  left and without overlap, gives way to its replacement.\<close>

fun replaceAll :: "(jsstring \<Rightarrow> (jsstring \<times> jsstring) option) \<Rightarrow> nat \<Rightarrow> jsstring \<Rightarrow> jsstring" where
  "replaceAll re k [] = []"
| "replaceAll re (Suc k) (c # cs) = replaceAll re k cs"
| "replaceAll re 0 (c # cs) =
     (case re (c # cs) of
        None \<Rightarrow> c # replaceAll re 0 cs
      | Some (new, rest) \<Rightarrow> new @ replaceAll re (length cs - length rest) cs)"

text \<open>A literal pattern with a fixed replacement.\<close>

definition literally :: "jsstring \<Rightarrow> jsstring \<Rightarrow> jsstring \<Rightarrow> (jsstring \<times> jsstring) option" where
  "literally p new s = map_option (\<lambda>rest. (new, rest)) (lit p s)"

text \<open>A greedy run \<open>X+\<close>: the run and the rest; it needs one character.\<close>

definition plus :: "(int \<Rightarrow> bool) \<Rightarrow> jsstring \<Rightarrow> (jsstring \<times> jsstring) option" where
  "plus P s = (if takeWhile P s = [] then None else Some (takeWhile P s, dropWhile P s))"

text \<open>The lazy run \<^verbatim>\<open>[\s\S]*?\<close> before a closing literal: what stands before the
  first occurrence of the literal, and what follows it.\<close>

fun upto :: "jsstring \<Rightarrow> jsstring \<Rightarrow> (jsstring \<times> jsstring) option" where
  "upto l [] = (if l = [] then Some ([], []) else None)"
| "upto l (c # cs) =
     (case lit l (c # cs) of
        Some rest \<Rightarrow> Some ([], rest)
      | None \<Rightarrow> (case upto l cs of Some (b, rest) \<Rightarrow> Some (c # b, rest) | None \<Rightarrow> None))"

section \<open>Segment parser\<close>

text \<open>
  \<^verbatim>\<open>
  const srv3Regex = /<p\s+t="(\d+)"\s+d="(\d+)"[^>]*>([\s\S]*?)<\/p>/g
  const stdRegex = /<text\s+start="([\d.]+)"\s+dur="([\d.]+)"[^>]*>([\s\S]*?)<\/text>/g
  \<close>
  Both patterns have one shape: an opening literal, blanks, an attribute with a quoted
  value of a class, blanks, a second such attribute, anything up to the first
  \<^verbatim>\<open>></verbatim>\<close>, and the payload up to the first closing tag. The result at one
  position is the three captures and the input after the match.
\<close>

definition timedTagAt ::
  "jsstring \<Rightarrow> jsstring \<Rightarrow> jsstring \<Rightarrow> (int \<Rightarrow> bool) \<Rightarrow> jsstring \<Rightarrow> jsstring \<Rightarrow>
   ((jsstring \<times> jsstring \<times> jsstring) \<times> jsstring) option" where
  "timedTagAt opening attr1 attr2 cls closing s =
     do {
       r1 \<leftarrow> lit opening s;
       (w1, r2) \<leftarrow> plus isWhiteSpace r1;
       r3 \<leftarrow> lit attr1 r2;
       (g1, r4) \<leftarrow> plus cls r3;
       r5 \<leftarrow> lit (str ''\"'') r4;
       (w2, r6) \<leftarrow> plus isWhiteSpace r5;
       r7 \<leftarrow> lit attr2 r6;
       (g2, r8) \<leftarrow> plus cls r7;
       r9 \<leftarrow> lit (str ''\"'') r8;
       r10 \<leftarrow> lit (str ''>'') (dropWhile (\<lambda>c. c \<noteq> 62) r9);
       (g3, rest) \<leftarrow> upto closing r10;
       Some ((g1, g2, g3), rest)
     }"

definition srv3Regex :: "jsstring \<Rightarrow> ((jsstring \<times> jsstring \<times> jsstring) \<times> jsstring) option" where
  "srv3Regex = timedTagAt (str ''<p'') (str ''t=\"'') (str ''d=\"'') isDigit (str ''</p>'')"

definition stdRegex :: "jsstring \<Rightarrow> ((jsstring \<times> jsstring \<times> jsstring) \<times> jsstring) option" where
  "stdRegex =
     timedTagAt (str ''<text'') (str ''start=\"'') (str ''dur=\"'') (\<lambda>c. isDigit c \<or> c = 46) (str ''</text>'')"

text \<open>\<^verbatim>\<open>.replace(/<[^>]+>/g, '')\<close>\<close>

definition tagAt :: "jsstring \<Rightarrow> (jsstring \<times> jsstring) option" where
  "tagAt s =
     do {
       r1 \<leftarrow> lit (str ''<'') s;
       (body, r2) \<leftarrow> plus (\<lambda>c. c \<noteq> 62) r1;
       rest \<leftarrow> lit (str ''>'') r2;
       Some ([], rest)
     }"

definition stripTags :: "jsstring \<Rightarrow> jsstring" where
  "stripTags s = replaceAll tagAt 0 s"

text \<open>\<^verbatim>\<open>String.prototype.trim\<close>\<close>

fun trimEnd :: "jsstring \<Rightarrow> jsstring" where
  "trimEnd [] = []"
| "trimEnd (c # cs) = (if trimEnd cs = [] \<and> isWhiteSpace c then [] else c # trimEnd cs)"

definition trim :: "jsstring \<Rightarrow> jsstring" where
  "trim s = trimEnd (dropWhile isWhiteSpace s)"

text \<open>
  \<^verbatim>\<open>
  function decodeHtmlEntities(str: string): string {
    return str
      .replace(/&amp;/g, '&')
      .replace(/&lt;/g, '<')
      .replace(/&gt;/g, '>')
      .replace(/&quot;/g, '"')
      .replace(/&#39;/g, "'")
      .replace(/&#x27;/g, "'")
      .replace(/&nbsp;/g, ' ')
      .replace(/&#(\d+);/g, (_m, code) => String.fromCharCode(parseInt(code)))
  }
  \<close>
\<close>

definition numericRefAt :: "jsstring \<Rightarrow> (jsstring \<times> jsstring) option" where
  "numericRefAt s =
     (case lit (str ''&#'') s of
        None \<Rightarrow> None
      | Some r1 \<Rightarrow>
          (case plus isDigit r1 of
             None \<Rightarrow> None
           | Some (code, r2) \<Rightarrow>
               (case lit (str '';'') r2 of
                  None \<Rightarrow> None
                | Some rest \<Rightarrow> Some ([fromCharCode (parseInt code)], rest))))"

definition decodeHtmlEntities :: "jsstring \<Rightarrow> jsstring" where
  "decodeHtmlEntities s0 =
     (let s1 = replaceAll (literally (str ''&amp;'') (str ''&'')) 0 s0;
          s2 = replaceAll (literally (str ''&lt;'') (str ''<'')) 0 s1;
          s3 = replaceAll (literally (str ''&gt;'') (str ''>'')) 0 s2;
          s4 = replaceAll (literally (str ''&quot;'') (str ''\"'')) 0 s3;
          s5 = replaceAll (literally (str ''&#39;'') [39]) 0 s4;
          s6 = replaceAll (literally (str ''&#x27;'') [39]) 0 s5;
          s7 = replaceAll (literally (str ''&nbsp;'') (str '' '')) 0 s6
      in replaceAll numericRefAt 0 s7)"

text \<open>What both loops do with the payload \<^verbatim>\<open>match[3]\<close>:
  \<^verbatim>\<open>decodeHtmlEntities(match[3].replace(/<[^>]+>/g, '').trim())\<close>\<close>

definition segmentText :: "jsstring \<Rightarrow> jsstring" where
  "segmentText payload = decodeHtmlEntities (trim (stripTags payload))"

record segment =
  text' :: jsstring
  offset :: jsnum
  duration :: jsnum

text \<open>
  \<^verbatim>\<open>
  while ((match = srv3Regex.exec(captionXml)) !== null) {
    isSrv3 = true
    const offset = parseInt(match[1])
    const duration = parseInt(match[2])
    const text = decodeHtmlEntities(match[3].replace(/<[^>]+>/g, '').trim())
    if (text) {
      segments.push({ text, offset, duration })
    }
  }
  \<close>
  The loop over the matches, on the state \<open>(isSrv3, segments)\<close>.
\<close>

fun srv3Loop ::
  "(jsstring \<times> jsstring \<times> jsstring) list \<Rightarrow> bool \<times> segment list \<Rightarrow> bool \<times> segment list" where
  "srv3Loop [] st = st"
| "srv3Loop ((g1, g2, g3) # ms) (isSrv3, segments) =
     srv3Loop ms
       (True,
        if segmentText g3 \<noteq> []
        then segments @ [\<lparr>text' = segmentText g3, offset = parseInt g1, duration = parseInt g2\<rparr>]
        else segments)"

text \<open>
  \<^verbatim>\<open>
  while ((match = stdRegex.exec(captionXml)) !== null) {
    const offset = Math.floor(parseFloat(match[1]) * 1000)
    const duration = Math.floor(parseFloat(match[2]) * 1000)
    const text = decodeHtmlEntities(match[3].replace(/<[^>]+>/g, '').trim())
    if (text) {
      segments.push({ text, offset, duration })
    }
  }
  \<close>
\<close>

fun stdLoop :: "(jsstring \<times> jsstring \<times> jsstring) list \<Rightarrow> segment list \<Rightarrow> segment list" where
  "stdLoop [] segments = segments"
| "stdLoop ((g1, g2, g3) # ms) segments =
     stdLoop ms
       (if segmentText g3 \<noteq> []
        then segments @ [\<lparr>text' = segmentText g3, offset = floorMillis g1, duration = floorMillis g2\<rparr>]
        else segments)"

datatype fetchError =
    PageLoadFailed           \<comment> \<open>Failed to load YouTube video page\<close>
  | NoCaptionsAvailable      \<comment> \<open>No captions available for this video. ...\<close>
  | CaptionParseFailed       \<comment> \<open>Failed to parse caption tracks data\<close>
  | NoCaptionTracks          \<comment> \<open>No caption tracks found for this video\<close>
  | CaptionUrlNotFound       \<comment> \<open>Caption URL not found\<close>
  | CaptionFetchFailed       \<comment> \<open>Failed to fetch caption data\<close>
  | NoSegmentsExtracted      \<comment> \<open>No transcript segments could be extracted\<close>
  | Rejected jsstring        \<comment> \<open>a \<^verbatim>\<open>fetch\<close> that rejects, with its message\<close>

text \<open>The part of \<^verbatim>\<open>fetchTranscript\<close> between the caption payload and the
  assembly: format A first, format B when \<open>isSrv3\<close> was never set, and the throw on an
  empty result.\<close>

definition parseSegments :: "jsstring \<Rightarrow> fetchError + segment list" where
  "parseSegments captionXml =
     (case srv3Loop (execAll srv3Regex 0 captionXml) (False, []) of
        (isSrv3, segments) \<Rightarrow>
          let segments' = (if \<not> isSrv3 then stdLoop (execAll stdRegex 0 captionXml) segments else segments)
          in if length segments' = 0 then Inl NoSegmentsExtracted else Inr segments')"

section \<open>Transcript assembler\<close>

text \<open>\<^verbatim>\<open>Array.prototype.join\<close>\<close>

fun join :: "jsstring \<Rightarrow> jsstring list \<Rightarrow> jsstring" where
  "join sep [] = []"
| "join sep [x] = x"
| "join sep (x # y # ys) = x @ sep @ join sep (y # ys)"

text \<open>
  \<^verbatim>\<open>
  const plainText = segments.map(s => s.text).join(' ')
  const timestampedText = segments
    .map(s => {
      const totalSeconds = Math.floor(s.offset / 1000)
      const mins = Math.floor(totalSeconds / 60)
      const secs = totalSeconds % 60
      return `[${mins.toString().padStart(2, '0')}:${secs.toString().padStart(2, '0')}] ${s.text}`
    })
    .join('\n')
  \<close>
\<close>

definition plainText :: "segment list \<Rightarrow> jsstring" where
  "plainText segments = join (str '' '') (map text' segments)"

definition timestampLine :: "segment \<Rightarrow> jsstring" where
  "timestampLine s =
     (let totalSeconds = floorDiv (offset s) 1000;
          mins = floorDiv totalSeconds 60;
          secs = remainder totalSeconds 60
      in str ''['' @ padStart 2 (str ''0'') (toString mins) @ str '':'' @
         padStart 2 (str ''0'') (toString secs) @ str ''] '' @ text' s)"

definition timestampedText :: "segment list \<Rightarrow> jsstring" where
  "timestampedText segments = join [10] (map timestampLine segments)"

section \<open>Caption tracks\<close>

text \<open>An element of the \<^verbatim>\<open>captionTracks\<close> array, as an object whose properties may
  be absent. A track is auto-generated when its \<open>kind\<close> is \<^verbatim>\<open>'asr'\<close>.\<close>

record captionTrack =
  baseUrl :: "jsstring option"
  languageCode :: "jsstring option"
  kind :: "jsstring option"

definition isAsr :: "captionTrack \<Rightarrow> bool" where
  "isAsr t \<longleftrightarrow> kind t = Some (str ''asr'')"

subsection \<open>The selector with the language preference\<close>

text \<open>
  \<^verbatim>\<open>
  const preferredLangs = ['pt', 'en', 'es', 'fr', 'de', 'it', 'ja', 'ko', 'zh']
  let selectedTrack = tracks[0]
  let isGenerated = selectedTrack.kind === 'asr'

  // Try manual captions first
  for (const lang of preferredLangs) {
    const manual = tracks.find((t: any) => t.languageCode === lang && t.kind !== 'asr')
    if (manual) {
      selectedTrack = manual
      isGenerated = false
      break
    }
  }

  // If still on default, try auto-generated in preferred languages
  if (selectedTrack === tracks[0]) {
    for (const lang of preferredLangs) {
      const auto = tracks.find((t: any) => t.languageCode === lang)
      if (auto) {
        selectedTrack = auto
        isGenerated = auto.kind === 'asr'
        break
      }
    }
  }
  \<close>
  The elements of a parsed array are distinct objects, so \<^verbatim>\<open>selectedTrack === tracks[0]\<close>
  compares positions: the model keeps the selected track as its index, and
  \<^verbatim>\<open>find\<close> returns the index of the first element that satisfies the test.
\<close>

definition preferredLangs :: "jsstring list" where
  "preferredLangs =
     [str ''pt'', str ''en'', str ''es'', str ''fr'', str ''de'', str ''it'', str ''ja'', str ''ko'', str ''zh'']"

fun findIndex :: "('a \<Rightarrow> bool) \<Rightarrow> 'a list \<Rightarrow> nat option" where
  "findIndex P [] = None"
| "findIndex P (x # xs) = (if P x then Some 0 else map_option Suc (findIndex P xs))"

fun manualLoop :: "jsstring list \<Rightarrow> captionTrack list \<Rightarrow> nat option" where
  "manualLoop [] tracks = None"
| "manualLoop (lang # langs) tracks =
     (case findIndex (\<lambda>t. languageCode t = Some lang \<and> \<not> isAsr t) tracks of
        Some i \<Rightarrow> Some i
      | None \<Rightarrow> manualLoop langs tracks)"

fun autoLoop :: "jsstring list \<Rightarrow> captionTrack list \<Rightarrow> nat option" where
  "autoLoop [] tracks = None"
| "autoLoop (lang # langs) tracks =
     (case findIndex (\<lambda>t. languageCode t = Some lang) tracks of
        Some i \<Rightarrow> Some i
      | None \<Rightarrow> autoLoop langs tracks)"

text \<open>The index of the selected track and \<open>isGenerated\<close>, for a non-empty array (the
  route throws on an empty one before it gets here).\<close>

definition selectIndex :: "captionTrack list \<Rightarrow> nat \<times> bool" where
  "selectIndex tracks =
     (case (case manualLoop preferredLangs tracks of
              Some i \<Rightarrow> (i, False)
            | None \<Rightarrow> (0, isAsr (tracks ! 0))) of
        (selected, isGenerated) \<Rightarrow>
          if selected = 0
          then (case autoLoop preferredLangs tracks of
                  Some j \<Rightarrow> (j, isAsr (tracks ! j))
                | None \<Rightarrow> (selected, isGenerated))
          else (selected, isGenerated))"

definition selectTrack :: "captionTrack list \<Rightarrow> fetchError + captionTrack" where
  "selectTrack tracks = (if length tracks = 0 then Inl NoCaptionTracks else Inr (tracks ! fst (selectIndex tracks)))"

subsection \<open>The policy in the words of the specification\<close>

text \<open>
  Rule 1: among the tracks whose kind is manual, the first whose language matches the
  ordered preference list; rule 2: if none, the same among all tracks; rule 3: if none
  matched, the first track. A track matches the ordered list at its best-ranked language:
  the languages are tried in their order, and the first track of the first language that
  has one is picked.
\<close>

fun firstByPreference :: "jsstring list \<Rightarrow> captionTrack list \<Rightarrow> captionTrack option" where
  "firstByPreference [] tracks = None"
| "firstByPreference (lang # langs) tracks =
     (case find (\<lambda>t. languageCode t = Some lang) tracks of
        Some t \<Rightarrow> Some t
      | None \<Rightarrow> firstByPreference langs tracks)"

definition specSelect :: "captionTrack list \<Rightarrow> captionTrack option" where
  "specSelect tracks =
     (case firstByPreference preferredLangs (filter (\<lambda>t. \<not> isAsr t) tracks) of
        Some t \<Rightarrow> Some t
      | None \<Rightarrow>
          (case firstByPreference preferredLangs tracks of
             Some t \<Rightarrow> Some t
           | None \<Rightarrow> (case tracks of [] \<Rightarrow> None | t # ts \<Rightarrow> Some t)))"

section \<open>Caption source adapter: the tracks of a watch page\<close>

text \<open>
  \<^verbatim>\<open>
  const captionMatch = html.match(/"captionTracks":\s*(\[.*?\])/)
  if (!captionMatch) {
    // Try alternative: check for playerCaptionsTracklistRenderer
    const altMatch = html.match(/playerCaptionsTracklistRenderer.*?"captionTracks":\s*(\[.*?\])/)
    if (!altMatch) {
      throw new Error('No captions available for this video. The video may not have subtitles.')
    }
  }

  const captionTracksJson = captionMatch ? captionMatch[1] : ''
  let captionTracks: any[]

  try {
    captionTracks = JSON.parse(captionTracksJson)
  } catch {
    throw new Error('Failed to parse caption tracks data')
  }

  if (!captionTracks || captionTracks.length === 0) {
    throw new Error('No caption tracks found for this video')
  }
  \<close>
  The capture \<^verbatim>\<open>(\[.*?\])\<close> runs to the first closing bracket, through
  characters that are not line terminators.
\<close>

definition captionTracksAt :: "jsstring \<Rightarrow> jsstring option" where
  "captionTracksAt s =
     do {
       r1 \<leftarrow> lit (str ''\"captionTracks\":'') s;
       r2 \<leftarrow> lit (str ''['') (dropWhile isWhiteSpace r1);
       r3 \<leftarrow> lit (str '']'') (dropWhile (\<lambda>c. c \<noteq> 93 \<and> \<not> isLineTerminator c) r2);
       Some (str ''['' @ takeWhile (\<lambda>c. c \<noteq> 93 \<and> \<not> isLineTerminator c) r2 @ str '']'')
     }"

text \<open>The lazy \<^verbatim>\<open>.*?\<close> in front of the rest of a pattern: the rest is tried at
  each position in turn, as long as no line terminator is crossed.\<close>

fun lazyDots :: "(jsstring \<Rightarrow> 'a option) \<Rightarrow> jsstring \<Rightarrow> 'a option" where
  "lazyDots k [] = k []"
| "lazyDots k (c # cs) =
     (case k (c # cs) of
        Some m \<Rightarrow> Some m
      | None \<Rightarrow> if isLineTerminator c then None else lazyDots k cs)"

definition altCaptionTracksAt :: "jsstring \<Rightarrow> jsstring option" where
  "altCaptionTracksAt s =
     do {
       r \<leftarrow> lit (str ''playerCaptionsTracklistRenderer'') s;
       lazyDots captionTracksAt r
     }"

text \<open>\<^verbatim>\<open>JSON.parse\<close> is the engine's: it is a parameter, \<open>None\<close> where it throws,
  and it throws on the empty string.\<close>

definition JSON_parse :: "(jsstring \<Rightarrow> 'a option) \<Rightarrow> jsstring \<Rightarrow> 'a option" where
  "JSON_parse parser s = (if s = [] then None else parser s)"

definition extractCaptionTracks ::
  "(jsstring \<Rightarrow> captionTrack list option) \<Rightarrow> jsstring \<Rightarrow> fetchError + captionTrack list" where
  "extractCaptionTracks parser html =
     (let captionMatch = searchFrom captionTracksAt html
      in if captionMatch = None \<and> searchFrom altCaptionTracksAt html = None then Inl NoCaptionsAvailable
         else let captionTracksJson = (case captionMatch of Some m \<Rightarrow> m | None \<Rightarrow> [])
              in (case JSON_parse parser captionTracksJson of
                    None \<Rightarrow> Inl CaptionParseFailed
                  | Some captionTracks \<Rightarrow>
                      if length captionTracks = 0 then Inl NoCaptionTracks else Inr captionTracks))"

section \<open>The route handler \<^verbatim>\<open>POST /api/transcribe\<close>\<close>

text \<open>
  Everything outside the process is a parameter of the model: the identity service, the
  network, the JSON parser, the two summary backends and the environment. A
  \<^verbatim>\<open>fetch\<close> rejects with a message or resolves to \<^verbatim>\<open>res.ok\<close> and the body.
  The data store is state, passed through the handler; with it goes the list of the
  outside calls made so far, in their order.
\<close>

datatype httpResult = Failed jsstring | Response bool jsstring

datatype call =
    AuthGetUser | ProfileSelect | OEmbedFetch | WatchPageFetch | CaptionFetch
  | GeminiCall | AnthropicCall | TranscriptionInsert | CreditsSelect | CreditsUpdate

record world =
  getUser :: "jsstring \<Rightarrow> jsstring option"
  oEmbed :: "jsstring \<Rightarrow> (jsstring \<times> jsstring) option"
  fetch :: "jsstring \<Rightarrow> httpResult"
  jsonParse :: "jsstring \<Rightarrow> captionTrack list option"
  geminiKey :: "jsstring option"
  anthropicKey :: "jsstring option"
  generateSummaryGemini :: "jsstring \<Rightarrow> jsstring \<times> jsstring \<Rightarrow> jsstring \<Rightarrow> jsstring + jsstring"
  generateSummary :: "jsstring \<Rightarrow> jsstring \<times> jsstring \<Rightarrow> jsstring \<Rightarrow> jsstring + jsstring"
  insertedId :: "jsstring option"
  elapsed :: nat

record profile =
  plan :: jsstring
  credits_remaining :: int

record transcription =
  user_id :: jsstring
  video_id :: jsstring
  video_url :: "jsstring option"
  title :: jsstring
  channel_name :: jsstring
  transcript_text :: jsstring
  transcript_timestamped :: jsstring
  transcript_language :: jsstring
  word_count :: nat
  summary :: "jsstring option"
  processing_time_ms :: nat

record store =
  profiles :: "jsstring \<Rightarrow> profile option"
  transcriptions :: "transcription list"
  calls :: "call list"

record clientPayload =
  c_videoId :: "jsstring option"
  c_text :: "jsstring option"
  c_timestamped :: "jsstring option"
  c_language :: "jsstring option"
  c_title :: "jsstring option"
  c_channel :: "jsstring option"

record request =
  videoUrl :: "jsstring option"
  clientTranscript :: "clientPayload option"
  withSummary :: bool
  authorization :: "jsstring option"

record okBody =
  r_id :: "jsstring option"
  r_videoId :: jsstring
  r_title :: jsstring
  r_channel :: jsstring
  r_text :: jsstring
  r_timestamped :: jsstring
  r_language :: jsstring
  r_wordCount :: nat
  r_summary :: "jsstring option"
  r_summaryError :: "jsstring option"
  r_processingTimeMs :: nat

text \<open>A response: the success body, or a status with the error message and the
  \<^verbatim>\<open>fallbackToClient\<close> flag.\<close>

datatype response = Ok okBody | Error nat jsstring bool

text \<open>A string that may be absent is truthy when it is there and not empty;
  \<open>orElse x d\<close> is \<^verbatim>\<open>x || d\<close>.\<close>

definition truthy :: "jsstring option \<Rightarrow> bool" where
  "truthy x = (case x of None \<Rightarrow> False | Some v \<Rightarrow> v \<noteq> [])"

definition orElse :: "jsstring option \<Rightarrow> jsstring \<Rightarrow> jsstring" where
  "orElse x d = (case x of None \<Rightarrow> d | Some v \<Rightarrow> if v = [] then d else v)"

definition called :: "call \<Rightarrow> store \<Rightarrow> store" where
  "called c st = st\<lparr>calls := calls st @ [c]\<rparr>"

definition errorMessage :: "fetchError \<Rightarrow> jsstring" where
  "errorMessage e =
     (case e of
        PageLoadFailed \<Rightarrow> str ''Failed to load YouTube video page''
      | NoCaptionsAvailable \<Rightarrow> str ''No captions available for this video. The video may not have subtitles.''
      | CaptionParseFailed \<Rightarrow> str ''Failed to parse caption tracks data''
      | NoCaptionTracks \<Rightarrow> str ''No caption tracks found for this video''
      | CaptionUrlNotFound \<Rightarrow> str ''Caption URL not found''
      | CaptionFetchFailed \<Rightarrow> str ''Failed to fetch caption data''
      | NoSegmentsExtracted \<Rightarrow> str ''No transcript segments could be extracted''
      | Rejected msg \<Rightarrow> msg)"

text \<open>\<^verbatim>\<open>fetchVideoMetadata\<close> catches every failure and answers with the
  placeholders.\<close>

definition fetchVideoMetadata :: "world \<Rightarrow> jsstring \<Rightarrow> jsstring \<times> jsstring" where
  "fetchVideoMetadata w videoId =
     (case oEmbed w videoId of
        None \<Rightarrow> (str ''Unknown'', str ''Unknown'')
      | Some (t, a) \<Rightarrow> (orElse (Some t) (str ''Unknown''), orElse (Some a) (str ''Unknown'')))"

text \<open>\<^verbatim>\<open>fetchTranscript\<close> after the tracks are known: the route's own selection
  \<^verbatim>\<open>captionTracks.find((t: any) => t.kind !== 'asr') || captionTracks[0]\<close>, the fetch
  of the payload with \<^verbatim>\<open>&fmt=srv3\<close>, the parser and the assembler.\<close>

definition selectedTrack :: "captionTrack list \<Rightarrow> captionTrack" where
  "selectedTrack captionTracks =
     (case find (\<lambda>t. \<not> isAsr t) captionTracks of Some t \<Rightarrow> t | None \<Rightarrow> hd captionTracks)"

definition fetchCaptions ::
  "world \<Rightarrow> captionTrack list \<Rightarrow> store \<Rightarrow> (fetchError + jsstring \<times> jsstring \<times> jsstring) \<times> store" where
  "fetchCaptions w captionTracks st =
     (let track = selectedTrack captionTracks
      in if \<not> truthy (baseUrl track) then (Inl CaptionUrlNotFound, st)
         else (case fetch w (the (baseUrl track) @ str ''&fmt=srv3'') of
                 Failed msg \<Rightarrow> (Inl (Rejected msg), called CaptionFetch st)
               | Response ok captionXml \<Rightarrow>
                   if \<not> ok then (Inl CaptionFetchFailed, called CaptionFetch st)
                   else (case parseSegments captionXml of
                           Inl e \<Rightarrow> (Inl e, called CaptionFetch st)
                         | Inr segments \<Rightarrow>
                             (Inr (plainText segments, timestampedText segments,
                                   orElse (languageCode track) (str ''auto'')),
                              called CaptionFetch st))))"

definition fetchTranscript ::
  "world \<Rightarrow> jsstring \<Rightarrow> store \<Rightarrow> (fetchError + jsstring \<times> jsstring \<times> jsstring) \<times> store" where
  "fetchTranscript w videoId st =
     (case fetch w (str ''https://www.youtube.com/watch?v='' @ videoId) of
        Failed msg \<Rightarrow> (Inl (Rejected msg), called WatchPageFetch st)
      | Response ok html \<Rightarrow>
          if \<not> ok then (Inl PageLoadFailed, called WatchPageFetch st)
          else (case extractCaptionTracks (jsonParse w) html of
                  Inl e \<Rightarrow> (Inl e, called WatchPageFetch st)
                | Inr captionTracks \<Rightarrow> fetchCaptions w captionTracks (called WatchPageFetch st)))"

text \<open>\<^verbatim>\<open>plainText.split(/\s+/).length\<close>: one more than the number of maximal
  runs of blanks.\<close>

fun blankRuns :: "bool \<Rightarrow> jsstring \<Rightarrow> nat" where
  "blankRuns inRun [] = 0"
| "blankRuns inRun (c # cs) =
     (if isWhiteSpace c then (if inRun then 0 else 1) + blankRuns True cs else blankRuns False cs)"

definition wordCount :: "jsstring \<Rightarrow> nat" where
  "wordCount s = 1 + blankRuns False s"

text \<open>
  \<^verbatim>\<open>
  const videoId = clientTranscript?.videoId || extractVideoId(videoUrl)
  \<close>
  With no \<^verbatim>\<open>videoUrl\<close> in the body, \<^verbatim>\<open>extractVideoId\<close> throws a
  \<^verbatim>\<open>TypeError\<close> (the result \<open>None\<close>), which the outer \<^verbatim>\<open>catch\<close> turns
  into a 500.
\<close>

definition resolveVideoId :: "request \<Rightarrow> jsstring option option" where
  "resolveVideoId req =
     (case clientTranscript req of
        Some c \<Rightarrow>
          if truthy (c_videoId c) then Some (c_videoId c)
          else (case videoUrl req of None \<Rightarrow> None | Some url \<Rightarrow> Some (extractVideoId url))
      | None \<Rightarrow> (case videoUrl req of None \<Rightarrow> None | Some url \<Rightarrow> Some (extractVideoId url)))"

text \<open>
  \<^verbatim>\<open>
  const authHeader = req.headers.get('authorization')
  if (authHeader) {
    const token = authHeader.replace('Bearer ', '')
    const { data: { user } } = await supabase.auth.getUser(token)
    userId = user?.id || null
  }
  \<close>
\<close>

fun replaceFirst :: "jsstring \<Rightarrow> jsstring \<Rightarrow> jsstring \<Rightarrow> jsstring" where
  "replaceFirst p new [] = (if p = [] then new else [])"
| "replaceFirst p new (c # cs) =
     (case lit p (c # cs) of Some rest \<Rightarrow> new @ rest | None \<Rightarrow> c # replaceFirst p new cs)"

definition authenticate :: "world \<Rightarrow> request \<Rightarrow> store \<Rightarrow> jsstring option \<times> store" where
  "authenticate w req st =
     (if truthy (authorization req)
      then (let userId = getUser w (replaceFirst (str ''Bearer '') [] (the (authorization req)))
            in (if truthy userId then userId else None, called AuthGetUser st))
      else (None, st))"

text \<open>
  \<^verbatim>\<open>
  if (userId) {
    const { data: profile } = await supabase.from('profiles')
      .select('plan, credits_remaining').eq('id', userId).single()
    if (profile && profile.plan === 'free' && profile.credits_remaining <= 0) {
      return NextResponse.json({ error: 'Monthly free limit reached. Upgrade to Pro for more.' },
        { status: 402 })
    }
  }
  \<close>
  The result says whether the request is rejected.
\<close>

definition creditsCheck :: "jsstring option \<Rightarrow> store \<Rightarrow> bool \<times> store" where
  "creditsCheck userId st =
     (case userId of
        None \<Rightarrow> (False, st)
      | Some u \<Rightarrow>
          (case profiles st u of
             None \<Rightarrow> (False, called ProfileSelect st)
           | Some p \<Rightarrow> (plan p = str ''free'' \<and> credits_remaining p \<le> 0, called ProfileSelect st)))"

text \<open>The transcript: the client's when it sent a text, the server's own extraction
  otherwise. The result is the early 422 response, or the transcript with its metadata:
  plain text, timestamped text, language, title and channel.\<close>

definition obtainTranscript ::
  "world \<Rightarrow> request \<Rightarrow> jsstring \<Rightarrow> store \<Rightarrow>
   (response + jsstring \<times> jsstring \<times> jsstring \<times> jsstring \<times> jsstring) \<times> store" where
  "obtainTranscript w req videoId st =
     (if (case clientTranscript req of Some c \<Rightarrow> truthy (c_text c) | None \<Rightarrow> False)
      then (let c = the (clientTranscript req)
            in (Inr (the (c_text c), orElse (c_timestamped c) [], orElse (c_language c) (str ''auto''),
                     orElse (c_title c) (str ''Unknown''), orElse (c_channel c) (str ''Unknown'')), st))
      else (case fetchVideoMetadata w videoId of
              (ttl, channel) \<Rightarrow>
                (case fetchTranscript w videoId (called OEmbedFetch st) of
                   (Inl e, st') \<Rightarrow> (Inl (Error 422 (errorMessage e) True), st')
                 | (Inr (plain, stamped, language), st') \<Rightarrow>
                     (Inr (plain, stamped, language, ttl, channel), st'))))"

text \<open>
  \<^verbatim>\<open>
  let summary = null
  let summaryError: string | null = null
  const geminiKey = process.env.GEMINI_API_KEY
  const anthropicKey = process.env.ANTHROPIC_API_KEY
  if (withSummary && plainText) {
    try {
      if (geminiKey && geminiKey !== 'placeholder') {
        summary = await generateSummaryGemini(plainText, { title, channel }, geminiKey)
      } else if (anthropicKey && anthropicKey !== 'placeholder') {
        summary = await generateSummary(plainText, { title, channel }, anthropicKey)
      } else {
        summaryError = 'No AI key configured (GEMINI_API_KEY or ANTHROPIC_API_KEY)'
      }
    } catch (e: any) {
      summaryError = e.message || 'Unknown summary error'
      console.error('Summary generation failed:', e)
    }
  }
  \<close>
  A backend answers \<open>Inr\<close> its text or \<open>Inl\<close> the message of what it threw. The
  result is \<open>(summary, summaryError)\<close>.
\<close>

definition usable :: "jsstring option \<Rightarrow> bool" where
  "usable key \<longleftrightarrow> truthy key \<and> key \<noteq> Some (str ''placeholder'')"

definition caught :: "jsstring + jsstring \<Rightarrow> jsstring option \<times> jsstring option" where
  "caught r =
     (case r of
        Inr text \<Rightarrow> (Some text, None)
      | Inl message \<Rightarrow> (None, Some (orElse (Some message) (str ''Unknown summary error''))))"

definition summaryStage ::
  "world \<Rightarrow> bool \<Rightarrow> jsstring \<Rightarrow> jsstring \<times> jsstring \<Rightarrow> store \<Rightarrow>
   (jsstring option \<times> jsstring option) \<times> store" where
  "summaryStage w wanted plain meta st =
     (if wanted \<and> plain \<noteq> []
      then (if usable (geminiKey w)
            then (caught (generateSummaryGemini w plain meta (the (geminiKey w))), called GeminiCall st)
            else if usable (anthropicKey w)
            then (caught (generateSummary w plain meta (the (anthropicKey w))), called AnthropicCall st)
            else ((None, Some (str ''No AI key configured (GEMINI_API_KEY or ANTHROPIC_API_KEY)'')), st))
      else ((None, None), st))"

text \<open>
  \<^verbatim>\<open>
  if (userId) {
    const { data } = await supabase.from('transcriptions').insert({ ... }).select('id').single()
    transcriptionId = data?.id

    // Decrement credits for free users
    const { data: currentProfile } = await supabase.from('profiles')
      .select('credits_remaining').eq('id', userId).single()

    if (currentProfile && currentProfile.credits_remaining > 0) {
      await supabase.from('profiles')
        .update({ credits_remaining: currentProfile.credits_remaining - 1 }).eq('id', userId)
    }
  }
  \<close>
  The store assigns the identifier \<open>insertedId\<close>; an insert that fails leaves no row and
  no identifier.
\<close>

definition insertTranscription :: "world \<Rightarrow> transcription \<Rightarrow> store \<Rightarrow> jsstring option \<times> store" where
  "insertTranscription w row st =
     (case insertedId w of
        None \<Rightarrow> (None, called TranscriptionInsert st)
      | Some i \<Rightarrow> (Some i, called TranscriptionInsert (st\<lparr>transcriptions := transcriptions st @ [row]\<rparr>)))"

definition decrementCredits :: "jsstring \<Rightarrow> store \<Rightarrow> store" where
  "decrementCredits u st =
     (case profiles st u of
        None \<Rightarrow> called CreditsSelect st
      | Some currentProfile \<Rightarrow>
          if credits_remaining currentProfile > 0
          then called CreditsUpdate
                 ((called CreditsSelect st)
                    \<lparr>profiles := (profiles st)(u \<mapsto> currentProfile\<lparr>credits_remaining := credits_remaining currentProfile - 1\<rparr>)\<rparr>)
          else called CreditsSelect st)"

definition persist ::
  "world \<Rightarrow> jsstring option \<Rightarrow> transcription \<Rightarrow> store \<Rightarrow> jsstring option \<times> store" where
  "persist w userId row st =
     (case userId of
        None \<Rightarrow> (None, st)
      | Some u \<Rightarrow>
          (case insertTranscription w (row\<lparr>user_id := u\<rparr>) st of
             (transcriptionId, st') \<Rightarrow> (transcriptionId, decrementCredits u st')))"

text \<open>The handler from the summary on: nothing here returns early.\<close>

definition completeRequest ::
  "world \<Rightarrow> request \<Rightarrow> jsstring \<Rightarrow> jsstring option \<Rightarrow>
   jsstring \<times> jsstring \<times> jsstring \<times> jsstring \<times> jsstring \<Rightarrow> store \<Rightarrow> response \<times> store" where
  "completeRequest w req videoId userId t st =
     (case t of (plain, stamped, language, ttl, channel) \<Rightarrow>
      case summaryStage w (withSummary req) plain (ttl, channel) st of ((summ, summaryError), st1) \<Rightarrow>
      case persist w userId
             \<lparr>user_id = [], video_id = videoId, video_url = videoUrl req, title = ttl,
              channel_name = channel, transcript_text = plain,
              transcript_timestamped = stamped, transcript_language = language,
              word_count = wordCount plain, summary = summ,
              processing_time_ms = elapsed w\<rparr> st1 of (transcriptionId, st2) \<Rightarrow>
      (Ok \<lparr>r_id = transcriptionId, r_videoId = videoId, r_title = ttl, r_channel = channel,
           r_text = plain, r_timestamped = stamped, r_language = language,
           r_wordCount = wordCount plain, r_summary = summ, r_summaryError = summaryError,
           r_processingTimeMs = elapsed w\<rparr>, st2))"

definition POST :: "world \<Rightarrow> request \<Rightarrow> store \<Rightarrow> response \<times> store" where
  "POST w req st =
     (if \<not> truthy (videoUrl req) \<and> clientTranscript req = None
      then (Error 400 (str ''videoUrl or clientTranscript is required'') False, st)
      else (case resolveVideoId req of
              None \<Rightarrow> (Error 500 (str ''Cannot read properties of undefined (reading 'match')'') False, st)
            | Some None \<Rightarrow> (Error 400 (str ''Invalid YouTube URL'') False, st)
            | Some (Some videoId) \<Rightarrow>
                (case authenticate w req st of
                   (userId, st1) \<Rightarrow>
                     (case creditsCheck userId st1 of
                        (True, st2) \<Rightarrow>
                          (Error 402 (str ''Monthly free limit reached. Upgrade to Pro for more.'') False, st2)
                      | (False, st2) \<Rightarrow>
                          (case obtainTranscript w req videoId st2 of
                             (Inl early, st3) \<Rightarrow> (early, st3)
                           | (Inr t, st3) \<Rightarrow> completeRequest w req videoId userId t st3)))))"

section \<open>Vocabulary of the statements\<close>

text \<open>The segments that a list of matches gives, with the conversion of the two time
  captures as a parameter: one segment for each match whose payload does not normalise to
  the empty string, in the order of the matches.\<close>

definition segmentsOf ::
  "(jsstring \<Rightarrow> jsnum) \<Rightarrow> (jsstring \<times> jsstring \<times> jsstring) list \<Rightarrow> segment list" where
  "segmentsOf toMillis ms =
     map (\<lambda>(g1, g2, g3). \<lparr>text' = segmentText g3, offset = toMillis g1, duration = toMillis g2\<rparr>)
       (filter (\<lambda>(g1, g2, g3). segmentText g3 \<noteq> []) ms)"

text \<open>
  The entity decoder of the route's earlier single-format parser, which applied it to the
  raw payload and trimmed afterwards:
  \<^verbatim>\<open>
  function decodeXmlEntities(text: string): string {
    return text
      .replace(/&amp;/g, '&')
      .replace(/&lt;/g, '<')
      .replace(/&gt;/g, '>')
      .replace(/&quot;/g, '"')
      .replace(/&#39;/g, "'")
      .replace(/&apos;/g, "'")
      .replace(/&#(\d+);/g, (_, num) => String.fromCharCode(parseInt(num)))
      .replace(/\n/g, ' ')
  }
  \<close>
\<close>

definition decodeXmlEntities :: "jsstring \<Rightarrow> jsstring" where
  "decodeXmlEntities s0 =
     (let s1 = replaceAll (literally (str ''&amp;'') (str ''&'')) 0 s0;
          s2 = replaceAll (literally (str ''&lt;'') (str ''<'')) 0 s1;
          s3 = replaceAll (literally (str ''&gt;'') (str ''>'')) 0 s2;
          s4 = replaceAll (literally (str ''&quot;'') (str ''\"'')) 0 s3;
          s5 = replaceAll (literally (str ''&#39;'') [39]) 0 s4;
          s6 = replaceAll (literally (str ''&apos;'') [39]) 0 s5;
          s7 = replaceAll numericRefAt 0 s6
      in replaceAll (literally [10] (str '' '')) 0 s7)"

text \<open>The normalisation in the words of the specification: strip nested markup, decode
  the five XML entities and the numeric references, turn line feeds into spaces, trim.\<close>

definition specNormalize :: "jsstring \<Rightarrow> jsstring" where
  "specNormalize payload = trim (decodeXmlEntities (stripTags payload))"

text \<open>The table of profiles after one decrement for the account \<open>u\<close>: one credit
  less when the account is there with a positive number of credits, and no change
  otherwise.\<close>

definition debit :: "jsstring \<Rightarrow> (jsstring \<Rightarrow> profile option) \<Rightarrow> (jsstring \<Rightarrow> profile option)" where
  "debit u table =
     (case table u of
        None \<Rightarrow> table
      | Some p \<Rightarrow>
          if 0 < credits_remaining p
          then table(u \<mapsto> p\<lparr>credits_remaining := credits_remaining p - 1\<rparr>)
          else table)"

text \<open>
  A world, a request and a store for the examples. The world is offline (every
  \<^verbatim>\<open>fetch\<close> rejects), knows one bearer token, has a Gemini key, and its Gemini
  backend throws. The request carries a transcript extracted by the client. The store has
  one account, with a given plan and number of credits.
\<close>

definition offline :: world where
  "offline =
     \<lparr>getUser = (\<lambda>token. if token = str ''token-1'' then Some (str ''user-1'') else None),
      oEmbed = (\<lambda>v. None),
      fetch = (\<lambda>url. Failed (str ''fetch failed'')),
      jsonParse = (\<lambda>s. None),
      geminiKey = Some (str ''key''),
      anthropicKey = None,
      generateSummaryGemini = (\<lambda>plain meta key. Inl (str ''Gemini API error: 500 - overloaded'')),
      generateSummary = (\<lambda>plain meta key. Inr (str ''unused'')),
      insertedId = Some (str ''row-1''),
      elapsed = 12\<rparr>"

definition clientRequest :: request where
  "clientRequest =
     \<lparr>videoUrl = Some (str ''https://youtu.be/dQw4w9WgXcQ''),
      clientTranscript =
        Some \<lparr>c_videoId = Some (str ''dQw4w9WgXcQ''), c_text = Some (str ''Hello World''),
              c_timestamped = Some (str ''[00:01] Hello''), c_language = Some (str ''en''),
              c_title = None, c_channel = None\<rparr>,
      withSummary = True,
      authorization = Some (str ''Bearer token-1'')\<rparr>"

definition storeWith :: "jsstring \<Rightarrow> int \<Rightarrow> store" where
  "storeWith p n =
     \<lparr>profiles = (\<lambda>u. if u = str ''user-1'' then Some \<lparr>plan = p, credits_remaining = n\<rparr> else None),
      transcriptions = [],
      calls = []\<rparr>"

section \<open>Properties of the pattern matchers\<close>

lemma lit_iff: "lit m s = Some r \<longleftrightarrow> s = m @ r"
  by (induction m s rule: lit.induct) auto

lemma lit_None_iff: "lit m s = None \<longleftrightarrow> \<not> prefix m s"
  by (induction m s rule: lit.induct) auto

lemma searchFrom_skip:
  "(\<And>p. p < length pre \<Longrightarrow> re (drop p (pre @ s)) = None) \<Longrightarrow> searchFrom re (pre @ s) = searchFrom re s"
proof (induction pre)
  case Nil
  then show ?case by simp
next
  case (Cons c pre)
  have here: "re ((c # pre) @ s) = None"
    using Cons.prems [of 0] by simp
  have later: "re (drop p (pre @ s)) = None" if "p < length pre" for p
    using Cons.prems [of "Suc p"] that by simp
  show ?case
    using here Cons.IH [OF later] by simp
qed

lemma searchFrom_hit: "re s = Some v \<Longrightarrow> searchFrom re s = Some v"
  by (cases s) auto

lemma searchFrom_None_iff:
  "searchFrom re s = None \<longleftrightarrow> (\<forall>p\<le>length s. re (drop p s) = None)"
proof (induction s)
  case Nil
  then show ?case by simp
next
  case (Cons c cs)
  show ?case
  proof
    assume a: "searchFrom re (c # cs) = None"
    then have h: "re (c # cs) = None" and t: "searchFrom re cs = None"
      by (auto split: option.splits)
    show "\<forall>p\<le>length (c # cs). re (drop p (c # cs)) = None"
    proof (intro allI impI)
      fix p assume "p \<le> length (c # cs)"
      then show "re (drop p (c # cs)) = None"
        using h t Cons.IH by (cases p) auto
    qed
  next
    assume a: "\<forall>p\<le>length (c # cs). re (drop p (c # cs)) = None"
    have h: "re (c # cs) = None" using a [rule_format, of 0] by simp
    have "\<forall>p\<le>length cs. re (drop p cs) = None"
    proof (intro allI impI)
      fix p assume "p \<le> length cs"
      then show "re (drop p cs) = None" using a [rule_format, of "Suc p"] by simp
    qed
    then show "searchFrom re (c # cs) = None"
      using h Cons.IH by simp
  qed
qed

lemma searchFrom_Some_D:
  "searchFrom re s = Some v \<Longrightarrow> \<exists>p\<le>length s. re (drop p s) = Some v"
proof (induction s)
  case Nil
  then show ?case by simp
next
  case (Cons c cs)
  show ?case
  proof (cases "re (c # cs)")
    case None
    with Cons.prems have "searchFrom re cs = Some v" by simp
    from Cons.IH [OF this] obtain p where "p \<le> length cs" "re (drop p cs) = Some v" by blast
    then have "Suc p \<le> length (c # cs) \<and> re (drop (Suc p) (c # cs)) = Some v" by simp
    then show ?thesis by blast
  next
    case (Some w)
    with Cons.prems have "re (drop 0 (c # cs)) = Some v" by simp
    then show ?thesis by blast
  qed
qed

section \<open>The entity resolver\<close>

text \<open>The matcher of the first pattern against the language of the pattern.\<close>

lemma validId_take: "validId (take 11 r) \<longleftrightarrow> (\<exists>v. validId v \<and> prefix v r)"
proof
  assume "validId (take 11 r)"
  then have "validId (take 11 r) \<and> prefix (take 11 r) r" by (simp add: take_is_prefix)
  then show "\<exists>v. validId v \<and> prefix v r" by blast
next
  assume "\<exists>v. validId v \<and> prefix v r"
  then obtain v where v: "validId v" "prefix v r" by blast
  then obtain t where "r = v @ t" by (auto simp: prefix_def)
  with v(1) show "validId (take 11 r)" by (simp add: validId_def)
qed

lemma urlPatternAt_None_iff:
  "urlPatternAt ms s = None \<longleftrightarrow> (\<forall>m\<in>set ms. \<forall>v. validId v \<longrightarrow> \<not> prefix (m @ v) s)"
proof (induction ms)
  case Nil
  then show ?case by simp
next
  case (Cons m ms)
  show ?case
  proof (cases "lit m s")
    case None
    then have "\<not> prefix m s" by (simp add: lit_None_iff)
    then have "\<forall>v. \<not> prefix (m @ v) s" by (auto simp: prefix_def)
    with None Cons.IH show ?thesis by simp
  next
    case (Some r)
    then have s: "s = m @ r" by (simp add: lit_iff)
    have "(\<forall>v. validId v \<longrightarrow> \<not> prefix (m @ v) s) \<longleftrightarrow> \<not> validId (take 11 r)"
      by (simp add: s validId_take)
    with Some Cons.IH show ?thesis by auto
  qed
qed

lemma urlPatternAt_valid: "urlPatternAt ms s = Some v \<Longrightarrow> validId v"
  by (induction ms) (auto split: option.splits if_splits)

lemma urlPatternAt_marker:
  assumes "validId v" "m \<in> set markers"
  shows "urlPatternAt markers (m @ v @ suf) = Some v"
proof -
  have t: "take 11 (v @ suf) = v" using assms(1) by (simp add: validId_def)
  show ?thesis
    using assms t by (auto simp: markers_def str_def)
qed

lemma urlPatternAt_no_marker:
  "list_all (\<lambda>m. lit m s = None) ms \<Longrightarrow> urlPatternAt ms s = None"
  by (induction ms) auto

lemma firstMarkerAt_D:
  "firstMarkerAt n s \<Longrightarrow> p < n \<Longrightarrow> urlPatternAt markers (drop p s) = None"
proof (induction n s arbitrary: p rule: firstMarkerAt.induct)
  case (1 s)
  then show ?case by simp
next
  case (2 n)
  then show ?case by (simp add: markers_def str_def)
next
  case (3 n c cs)
  show ?case
  proof (cases p)
    case 0
    with "3.prems" show ?thesis by (simp add: urlPatternAt_no_marker)
  next
    case (Suc q)
    with "3.prems" "3.IH" [of q] show ?thesis by simp
  qed
qed

lemma url_shape:
  assumes "validId v" "m \<in> set markers" "firstMarkerAt (length pre) (pre @ m @ v @ suf)"
  shows "extractVideoId (pre @ m @ v @ suf) = Some v"
proof -
  have "searchFrom (urlPatternAt markers) (pre @ m @ v @ suf) = searchFrom (urlPatternAt markers) (m @ v @ suf)"
    by (rule searchFrom_skip) (rule firstMarkerAt_D [OF assms(3)])
  also have "\<dots> = Some v"
    by (rule searchFrom_hit) (rule urlPatternAt_marker [OF assms(1,2)])
  finally show ?thesis by (simp add: extractVideoId_def)
qed

text \<open>Every marker holds a slash or an equals sign, which no identifier and no blank is.\<close>

lemma marker_needs_punctuation:
  assumes "m \<in> set markers" "prefix m s"
  shows "47 \<in> set s \<or> 61 \<in> set s"
proof -
  have "47 \<in> set m \<or> 61 \<in> set m"
    using assms(1) by (auto simp: markers_def str_def)
  moreover have "set m \<subseteq> set s"
    using assms(2) by (auto simp: prefix_def)
  ultimately show ?thesis by blast
qed

lemma no_punctuation_no_url:
  assumes "47 \<notin> set s" "61 \<notin> set s"
  shows "searchFrom (urlPatternAt markers) s = None"
proof -
  have "urlPatternAt markers (drop p s) = None" for p
  proof -
    have "\<not> prefix (m @ v) (drop p s)" if "m \<in> set markers" for m v
    proof
      assume "prefix (m @ v) (drop p s)"
      then have "prefix m (drop p s)" by (auto simp: prefix_def)
      from marker_needs_punctuation [OF that this] have "47 \<in> set (drop p s) \<or> 61 \<in> set (drop p s)" .
      then have "47 \<in> set s \<or> 61 \<in> set s" by (auto dest: in_set_dropD)
      with assms show False by simp
    qed
    then show ?thesis by (simp add: urlPatternAt_None_iff)
  qed
  then show ?thesis by (simp add: searchFrom_None_iff)
qed

lemma idChar_not_punctuation: "isIdChar c \<Longrightarrow> c \<noteq> 47 \<and> c \<noteq> 61"
  by (auto simp: isIdChar_def)

lemma blank_not_punctuation: "isWhiteSpace c \<Longrightarrow> c \<noteq> 47 \<and> c \<noteq> 61"
  by (auto simp: isWhiteSpace_def)

lemma bare_id:
  assumes "validId v"
  shows "extractVideoId v = Some v"
proof -
  have "47 \<notin> set v \<and> 61 \<notin> set v"
    using assms idChar_not_punctuation by (auto simp: validId_def list_all_iff)
  then have "searchFrom (urlPatternAt markers) v = None"
    by (simp add: no_punctuation_no_url)
  with assms show ?thesis by (simp add: extractVideoId_def barePattern_def)
qed

lemma padded_id:
  assumes "validId v" "list_all isWhiteSpace (l @ r)" "l @ r \<noteq> []"
  shows "extractVideoId (l @ v @ r) = None"
proof -
  have "47 \<notin> set (l @ v @ r) \<and> 61 \<notin> set (l @ v @ r)"
    using assms(1,2) idChar_not_punctuation blank_not_punctuation
    by (auto simp: validId_def list_all_iff)
  then have "searchFrom (urlPatternAt markers) (l @ v @ r) = None"
    by (simp add: no_punctuation_no_url)
  moreover have "length (l @ v @ r) \<noteq> 11"
    using assms(1,3) by (cases l; cases r) (auto simp: validId_def)
  ultimately show ?thesis by (simp add: extractVideoId_def barePattern_def validId_def)
qed

lemma not_found_iff:
  "extractVideoId s = None \<longleftrightarrow>
     (\<forall>p\<le>length s. \<forall>m\<in>set markers. \<forall>v. validId v \<longrightarrow> \<not> prefix (m @ v) (drop p s)) \<and> \<not> validId s"
proof -
  have "extractVideoId s = None \<longleftrightarrow> searchFrom (urlPatternAt markers) s = None \<and> \<not> validId s"
    by (simp add: extractVideoId_def barePattern_def split: option.splits)
  then show ?thesis
    by (simp add: searchFrom_None_iff urlPatternAt_None_iff)
qed

lemma found_valid: "extractVideoId s = Some v \<Longrightarrow> validId v"
  by (auto simp: extractVideoId_def barePattern_def split: option.splits if_splits
      dest!: searchFrom_Some_D urlPatternAt_valid)

text \<open>
  Claim C7, as the code has it. An identifier of eleven characters of the class, behind
  the first marker of the input (\<^verbatim>\<open>v=\<close>, \<^verbatim>\<open>/v/\<close>, \<^verbatim>\<open>youtu.be/\<close> or
  \<^verbatim>\<open>/embed/\<close>), is returned whatever the marker, the text before it and the text
  after the identifier are. An input that is exactly such an identifier is returned
  unchanged. The resolver does not trim: an identifier with blanks before or after it is
  not found. The result is \<open>None\<close> (never an exception) exactly when no marker is
  followed by eleven characters of the class anywhere and the input is not itself an
  identifier; every result is an identifier.
\<close>

theorem extractVideoId_resolves:
  "(validId v \<and> m \<in> set markers \<and> firstMarkerAt (length pre) (pre @ m @ v @ suf)
      \<longrightarrow> extractVideoId (pre @ m @ v @ suf) = Some v) \<and>
   (validId v \<longrightarrow> extractVideoId v = Some v) \<and>
   (validId v \<and> list_all isWhiteSpace (l @ r) \<and> l @ r \<noteq> [] \<longrightarrow> extractVideoId (l @ v @ r) = None) \<and>
   (extractVideoId s = None \<longleftrightarrow>
      (\<forall>p\<le>length s. \<forall>m\<in>set markers. \<forall>v. validId v \<longrightarrow> \<not> prefix (m @ v) (drop p s)) \<and> \<not> validId s) \<and>
   (extractVideoId s = Some w \<longrightarrow> validId w)"
  using url_shape bare_id padded_id not_found_iff found_valid by blast

text \<open>The four URL shapes with one identifier, the bare identifier, and the identifier
  followed by a blank.\<close>

theorem extractVideoId_resolves_witness:
  "extractVideoId (str ''https://www.youtube.com/watch?v=dQw4w9WgXcQ&t=1'') = Some (str ''dQw4w9WgXcQ'') \<and>
   extractVideoId (str ''https://www.youtube.com/v/dQw4w9WgXcQ'') = Some (str ''dQw4w9WgXcQ'') \<and>
   extractVideoId (str ''https://youtu.be/dQw4w9WgXcQ?t=1'') = Some (str ''dQw4w9WgXcQ'') \<and>
   extractVideoId (str ''https://www.youtube.com/embed/dQw4w9WgXcQ'') = Some (str ''dQw4w9WgXcQ'') \<and>
   extractVideoId (str ''dQw4w9WgXcQ'') = Some (str ''dQw4w9WgXcQ'') \<and>
   extractVideoId (str ''dQw4w9WgXcQ '') = None"
proof -
  let ?v = "str ''dQw4w9WgXcQ''"
  have v: "validId ?v" by code_simp
  have m: "str ''v='' \<in> set markers" "str ''/v/'' \<in> set markers"
    "str ''youtu.be/'' \<in> set markers" "str ''/embed/'' \<in> set markers"
    by (simp_all add: markers_def)
  have f1: "firstMarkerAt (length (str ''https://www.youtube.com/watch?''))
              (str ''https://www.youtube.com/watch?'' @ str ''v='' @ ?v @ str ''&t=1'')"
    by code_simp
  have f2: "firstMarkerAt (length (str ''https://www.youtube.com''))
              (str ''https://www.youtube.com'' @ str ''/v/'' @ ?v @ [])"
    by code_simp
  have f3: "firstMarkerAt (length (str ''https://''))
              (str ''https://'' @ str ''youtu.be/'' @ ?v @ str ''?t=1'')"
    by code_simp
  have f4: "firstMarkerAt (length (str ''https://www.youtube.com''))
              (str ''https://www.youtube.com'' @ str ''/embed/'' @ ?v @ [])"
    by code_simp
  have b: "list_all isWhiteSpace ([] @ str '' '')" "[] @ str '' '' \<noteq> []"
    by code_simp+
  have "extractVideoId (str ''https://www.youtube.com/watch?'' @ str ''v='' @ ?v @ str ''&t=1'') = Some ?v"
    using extractVideoId_resolves [of ?v "str ''v=''" "str ''https://www.youtube.com/watch?''" "str ''&t=1''"] v m(1) f1
    by blast
  moreover have "extractVideoId (str ''https://www.youtube.com'' @ str ''/v/'' @ ?v @ []) = Some ?v"
    using extractVideoId_resolves [of ?v "str ''/v/''" "str ''https://www.youtube.com''" "[]"] v m(2) f2
    by blast
  moreover have "extractVideoId (str ''https://'' @ str ''youtu.be/'' @ ?v @ str ''?t=1'') = Some ?v"
    using extractVideoId_resolves [of ?v "str ''youtu.be/''" "str ''https://''" "str ''?t=1''"] v m(3) f3
    by blast
  moreover have "extractVideoId (str ''https://www.youtube.com'' @ str ''/embed/'' @ ?v @ []) = Some ?v"
    using extractVideoId_resolves [of ?v "str ''/embed/''" "str ''https://www.youtube.com''" "[]"] v m(4) f4
    by blast
  moreover have "extractVideoId ?v = Some ?v"
    using extractVideoId_resolves [of ?v] v by blast
  moreover have "extractVideoId ([] @ ?v @ str '' '') = None"
    using extractVideoId_resolves [of ?v _ _ _ "[]" "str '' ''"] v b by blast
  ultimately show ?thesis
    by (simp add: str_def)
qed

text \<open>Against claim C7 as stated: the input \<^verbatim>\<open>" dQw4w9WgXcQ "\<close> is a bare
  identifier once trimmed, and the resolver answers \<^verbatim>\<open>null\<close>.\<close>

theorem extractVideoId_untrimmed_counterexample:
  "trim (str '' dQw4w9WgXcQ '') = str ''dQw4w9WgXcQ'' \<and> validId (str ''dQw4w9WgXcQ'') \<and>
   extractVideoId (str '' dQw4w9WgXcQ '') = None"
  by code_simp

section \<open>The track selector\<close>

lemma findIndex_find:
  "find P xs = (case findIndex P xs of None \<Rightarrow> None | Some i \<Rightarrow> Some (xs ! i))"
  by (induction xs) (auto split: option.splits)

lemma findIndex_less: "findIndex P xs = Some i \<Longrightarrow> i < length xs"
  by (induction xs arbitrary: i) (auto split: if_splits)

lemma find_filter: "find P (filter Q xs) = find (\<lambda>x. P x \<and> Q x) xs"
  by (induction xs) auto

lemma manualLoop_spec:
  "firstByPreference langs (filter (\<lambda>t. \<not> isAsr t) tracks) =
     (case manualLoop langs tracks of None \<Rightarrow> None | Some i \<Rightarrow> Some (tracks ! i))"
proof (induction langs)
  case Nil
  then show ?case by simp
next
  case (Cons l langs)
  have "find (\<lambda>t. languageCode t = Some l) (filter (\<lambda>t. \<not> isAsr t) tracks) =
          (case findIndex (\<lambda>t. languageCode t = Some l \<and> \<not> isAsr t) tracks of
             None \<Rightarrow> None | Some i \<Rightarrow> Some (tracks ! i))"
    by (subst find_filter) (rule findIndex_find)
  then show ?case
    using Cons.IH by (simp split: option.splits)
qed

lemma autoLoop_spec:
  "firstByPreference langs tracks =
     (case autoLoop langs tracks of None \<Rightarrow> None | Some i \<Rightarrow> Some (tracks ! i))"
  by (induction langs) (auto simp: findIndex_find split: option.splits)

text \<open>
  Where the selector and the policy agree: on every non-empty list, unless the manual
  track found by the first loop is the first element of the list while the second loop
  finds another track. (The second loop then runs because the selection is still
  \<^verbatim>\<open>tracks[0]\<close>, and overrides the manual track.)
\<close>

theorem selectTrack_agrees_with_policy:
  assumes "tracks \<noteq> []"
    and "manualLoop preferredLangs tracks = Some 0 \<longrightarrow> autoLoop preferredLangs tracks = Some 0"
  shows "selectTrack tracks = Inr t \<longleftrightarrow> specSelect tracks = Some t"
proof -
  have r1: "firstByPreference preferredLangs (filter (\<lambda>t. \<not> isAsr t) tracks) =
              (case manualLoop preferredLangs tracks of None \<Rightarrow> None | Some i \<Rightarrow> Some (tracks ! i))"
    by (rule manualLoop_spec)
  have r2: "firstByPreference preferredLangs tracks =
              (case autoLoop preferredLangs tracks of None \<Rightarrow> None | Some i \<Rightarrow> Some (tracks ! i))"
    by (rule autoLoop_spec)
  have r3: "(case tracks of [] \<Rightarrow> None | t # ts \<Rightarrow> Some t) = Some (tracks ! 0)"
    using assms(1) by (cases tracks) simp_all
  have policy: "specSelect tracks =
      (case manualLoop preferredLangs tracks of
         Some i \<Rightarrow> Some (tracks ! i)
       | None \<Rightarrow> (case autoLoop preferredLangs tracks of
                    Some j \<Rightarrow> Some (tracks ! j)
                  | None \<Rightarrow> Some (tracks ! 0)))"
    unfolding specSelect_def r1 r2 r3 by (simp split: option.splits)
  have code: "selectTrack tracks = Inr (tracks ! fst (selectIndex tracks))"
    using assms(1) by (simp add: selectTrack_def)
  show ?thesis
  proof (cases "manualLoop preferredLangs tracks")
    case None
    then show ?thesis
      by (cases "autoLoop preferredLangs tracks") (auto simp: policy code selectIndex_def)
  next
    case (Some i)
    with assms(2) show ?thesis
      by (cases "i = 0") (auto simp: policy code selectIndex_def)
  qed
qed

theorem selectTrack_agrees_with_policy_witness:
  "selectTrack
     [\<lparr>baseUrl = Some (str ''u0''), languageCode = Some (str ''en''), kind = Some (str ''asr'')\<rparr>,
      \<lparr>baseUrl = Some (str ''u1''), languageCode = Some (str ''pt''), kind = None\<rparr>,
      \<lparr>baseUrl = Some (str ''u2''), languageCode = Some (str ''es''), kind = None\<rparr>]
     = Inr \<lparr>baseUrl = Some (str ''u1''), languageCode = Some (str ''pt''), kind = None\<rparr> \<and>
   specSelect
     [\<lparr>baseUrl = Some (str ''u0''), languageCode = Some (str ''en''), kind = Some (str ''asr'')\<rparr>,
      \<lparr>baseUrl = Some (str ''u1''), languageCode = Some (str ''pt''), kind = None\<rparr>,
      \<lparr>baseUrl = Some (str ''u2''), languageCode = Some (str ''es''), kind = None\<rparr>]
     = Some \<lparr>baseUrl = Some (str ''u1''), languageCode = Some (str ''pt''), kind = None\<rparr>"
proof -
  let ?tracks = "[\<lparr>baseUrl = Some (str ''u0''), languageCode = Some (str ''en''), kind = Some (str ''asr'')\<rparr>,
      \<lparr>baseUrl = Some (str ''u1''), languageCode = Some (str ''pt''), kind = None\<rparr>,
      \<lparr>baseUrl = Some (str ''u2''), languageCode = Some (str ''es''), kind = None\<rparr>]"
  have a: "?tracks \<noteq> []" by simp
  have "manualLoop preferredLangs ?tracks = Some 1" by code_simp
  then have b: "manualLoop preferredLangs ?tracks = Some 0 \<longrightarrow> autoLoop preferredLangs ?tracks = Some 0"
    by simp
  have c: "selectTrack ?tracks = Inr \<lparr>baseUrl = Some (str ''u1''), languageCode = Some (str ''pt''), kind = None\<rparr>"
    by code_simp
  from selectTrack_agrees_with_policy
         [OF a b, of "\<lparr>baseUrl = Some (str ''u1''), languageCode = Some (str ''pt''), kind = None\<rparr>"] c
  show ?thesis by simp
qed

text \<open>
  Claim C1 holds on its two examples and fails on the list
  \<^verbatim>\<open>[{en, manual}, {pt, auto}]\<close>: the first loop selects the manual English track,
  which is \<^verbatim>\<open>tracks[0]\<close>; the test \<^verbatim>\<open>selectedTrack === tracks[0]\<close> then lets
  the second loop run, which selects the auto-generated Portuguese track. The policy
  (manual tracks first) selects the manual English track. The selection of the route,
  which has no list of preferred languages, takes the first manual track: on
  \<^verbatim>\<open>[{en, manual}, {pt, manual}]\<close> the English one, where the policy selects the
  Portuguese one.
\<close>

theorem selectTrack_overrides_first_manual:
  "selectTrack
     [\<lparr>baseUrl = Some (str ''u0''), languageCode = Some (str ''en''), kind = None\<rparr>,
      \<lparr>baseUrl = Some (str ''u1''), languageCode = Some (str ''pt''), kind = Some (str ''asr'')\<rparr>]
     = Inr \<lparr>baseUrl = Some (str ''u1''), languageCode = Some (str ''pt''), kind = Some (str ''asr'')\<rparr> \<and>
   specSelect
     [\<lparr>baseUrl = Some (str ''u0''), languageCode = Some (str ''en''), kind = None\<rparr>,
      \<lparr>baseUrl = Some (str ''u1''), languageCode = Some (str ''pt''), kind = Some (str ''asr'')\<rparr>]
     = Some \<lparr>baseUrl = Some (str ''u0''), languageCode = Some (str ''en''), kind = None\<rparr> \<and>
   selectTrack
     [\<lparr>baseUrl = Some (str ''u0''), languageCode = Some (str ''en''), kind = Some (str ''asr'')\<rparr>,
      \<lparr>baseUrl = Some (str ''u1''), languageCode = Some (str ''pt''), kind = None\<rparr>,
      \<lparr>baseUrl = Some (str ''u2''), languageCode = Some (str ''es''), kind = None\<rparr>]
     = Inr \<lparr>baseUrl = Some (str ''u1''), languageCode = Some (str ''pt''), kind = None\<rparr> \<and>
   selectTrack [\<lparr>baseUrl = Some (str ''u0''), languageCode = Some (str ''ja''), kind = Some (str ''asr'')\<rparr>]
     = Inr \<lparr>baseUrl = Some (str ''u0''), languageCode = Some (str ''ja''), kind = Some (str ''asr'')\<rparr> \<and>
   selectedTrack
     [\<lparr>baseUrl = Some (str ''u0''), languageCode = Some (str ''en''), kind = None\<rparr>,
      \<lparr>baseUrl = Some (str ''u1''), languageCode = Some (str ''pt''), kind = None\<rparr>]
     = \<lparr>baseUrl = Some (str ''u0''), languageCode = Some (str ''en''), kind = None\<rparr> \<and>
   specSelect
     [\<lparr>baseUrl = Some (str ''u0''), languageCode = Some (str ''en''), kind = None\<rparr>,
      \<lparr>baseUrl = Some (str ''u1''), languageCode = Some (str ''pt''), kind = None\<rparr>]
     = Some \<lparr>baseUrl = Some (str ''u1''), languageCode = Some (str ''pt''), kind = None\<rparr>"
  by code_simp

section \<open>Numbers: where double arithmetic is exact\<close>

lemma bitLength_pos: "0 < n \<Longrightarrow> bitLength n = Suc (bitLength (n div 2))"
  by (subst bitLength.simps) simp

lemma bitLength_nonpos: "n \<le> 0 \<Longrightarrow> bitLength n = 0"
  by (subst bitLength.simps) simp

lemma bitLength_bounds: "0 < n \<Longrightarrow> 2 ^ (bitLength n - 1) \<le> n \<and> n < 2 ^ bitLength n"
proof (induction n rule: bitLength.induct)
  case (1 n)
  show ?case
  proof (cases "n = 1")
    case True
    then show ?thesis by (simp add: bitLength_pos bitLength_nonpos)
  next
    case False
    with "1.prems" have h: "0 < n div 2" by simp
    with "1.IH" "1.prems" have ih: "2 ^ (bitLength (n div 2) - 1) \<le> n div 2" "n div 2 < 2 ^ bitLength (n div 2)"
      by simp_all
    have pos: "0 < bitLength (n div 2)" using h by (simp add: bitLength_pos)
    have "2 * 2 ^ (bitLength (n div 2) - 1) = (2::int) ^ bitLength (n div 2)"
      using pos by (cases "bitLength (n div 2)") simp_all
    with ih(1) have lo: "2 ^ bitLength (n div 2) \<le> n" by linarith
    from ih(2) have hi: "n < 2 * 2 ^ bitLength (n div 2)" by linarith
    show ?thesis using lo hi "1.prems" by (simp add: bitLength_pos)
  qed
qed

lemma bitLength_le: "0 < n \<Longrightarrow> n < 2 ^ k \<Longrightarrow> bitLength n \<le> k"
proof -
  assume n: "0 < n" "n < 2 ^ k"
  have "(2::int) ^ (bitLength n - 1) < 2 ^ k"
    using bitLength_bounds [OF n(1)] n(2) by linarith
  then have "bitLength n - 1 < k" by simp
  then show ?thesis by simp
qed

lemma ilog2_le: "ilog2 a b \<le> int (bitLength a) - int (bitLength b)"
  by (simp add: ilog2_def Let_def)

lemma roundHalfEven_bounds:
  assumes "0 < b"
  shows "2 * a - b \<le> 2 * (b * roundHalfEven a b) \<and> 2 * (b * roundHalfEven a b) \<le> 2 * a + b"
proof -
  define q where "q = a div b"
  define r where "r = a mod b"
  have a: "a = b * q + r" by (simp add: q_def r_def)
  have r: "0 \<le> r" "r < b" using assms by (simp_all add: r_def)
  have "roundHalfEven a b = (if 2 * r < b then q else if b < 2 * r then q + 1 else if even q then q else q + 1)"
    by (simp add: roundHalfEven_def q_def r_def Let_def)
  then consider "roundHalfEven a b = q" "2 * r \<le> b" | "roundHalfEven a b = q + 1" "b \<le> 2 * r"
    by (auto split: if_splits)
  then show ?thesis
  proof cases
    case 1
    then show ?thesis using a r by (simp add: algebra_simps)
  next
    case 2
    then show ?thesis using a r by (simp add: algebra_simps)
  qed
qed

lemma roundHalfEven_exact: "0 < b \<Longrightarrow> b dvd a \<Longrightarrow> roundHalfEven a b = a div b"
  by (simp add: roundHalfEven_def Let_def)

text \<open>\<^verbatim>\<open>Math.floor(n / d)\<close> is the integer quotient for every integer below
  \<open>2\<^sup>5\<^sup>3\<close>: the rounding of the quotient to a double never reaches the next integer.\<close>

lemma floor_of_rounded_quotient:
  assumes U: "0 < (U::int)" "d < 2 * U" and d: "0 < d" and n: "0 \<le> n"
  shows "roundHalfEven (n * U) d div U = n div d"
proof -
  define q where "q = n div d"
  define r where "r = n mod d"
  define m where "m = roundHalfEven (n * U) d"
  have nqr: "n = d * q + r" by (simp add: q_def r_def)
  have r: "0 \<le> r" "r < d" using d by (simp_all add: r_def)
  have nU: "n * U = d * (q * U) + r * U" by (simp add: nqr algebra_simps)
  show ?thesis
  proof (cases "r = 0")
    case True
    then have eq: "n * U = d * (q * U)" using nU by simp
    have "roundHalfEven (n * U) d = n * U div d"
      by (rule roundHalfEven_exact [OF d]) (simp only: eq dvd_triv_left)
    also have "\<dots> = q * U"
      using d by (simp only: eq) simp
    finally show ?thesis using U(1) by (simp add: q_def)
  next
    case False
    with r have r1: "1 \<le> r" "r \<le> d - 1" by simp_all
    have rU: "U \<le> r * U" "r * U \<le> d * U - U"
    proof -
      show "U \<le> r * U" using r1(1) U(1) by (simp add: mult_le_cancel_right1)
      have "r * U \<le> (d - 1) * U" using r1(2) U(1) by (simp add: mult_right_mono)
      then show "r * U \<le> d * U - U" by (simp add: algebra_simps)
    qed
    from roundHalfEven_bounds [OF d, of "n * U"]
    have b: "2 * (n * U) - d \<le> 2 * (d * m)" "2 * (d * m) \<le> 2 * (n * U) + d"
      by (simp_all add: m_def)
    have lo: "d * (q * U) < d * m"
      using b(1) nU rU(1) U(2) by linarith
    have hi: "d * m < d * ((q + 1) * U)"
    proof -
      have "d * ((q + 1) * U) = d * (q * U) + d * U" by (simp add: algebra_simps)
      then show ?thesis using b(2) nU rU(2) U(2) by linarith
    qed
    from lo d have lo': "q * U < m" by (simp add: mult_less_cancel_left_pos)
    from hi d have hi': "m < (q + 1) * U" by (simp add: mult_less_cancel_left_pos)
    have "m div U = q"
    proof (rule int_div_pos_eq [of m U q "m - U * q"])
      show "m = U * q + (m - U * q)" by simp
      show "0 \<le> m - U * q" using lo' by (simp add: algebra_simps)
      show "m - U * q < U" using hi' by (simp add: algebra_simps)
    qed
    then show ?thesis by (simp add: m_def q_def)
  qed
qed

lemma floorDiv_exact:
  assumes n: "0 \<le> n" "n < 2 ^ 53" and d: "0 < d"
  shows "floorDiv (Num n) d = Num (n div d)"
proof (cases "n = 0")
  case True
  then show ?thesis by (simp add: floorDiv_def toDouble_def)
next
  case False
  with n have npos: "0 < n" by simp
  define e where "e = ilog2 n d"
  have bn: "bitLength n \<le> 53" using bitLength_le [OF npos n(2)] .
  have bd: "1 \<le> bitLength d" using d by (simp add: bitLength_pos)
  have e: "e \<le> 53 - int (bitLength d)"
    using ilog2_le [of n d] bn by (simp add: e_def)
  then have down: "nat (e - 52) = 0" using bd by simp
  have up: "bitLength d \<le> Suc (nat (52 - e))" using e by simp
  have "d < 2 ^ bitLength d" using bitLength_bounds [OF d] by simp
  also have "\<dots> \<le> (2::int) ^ Suc (nat (52 - e))"
    using up by (simp add: power_increasing del: power_Suc)
  finally have U: "d < 2 * 2 ^ nat (52 - e)" by simp
  have "roundHalfEven (n * 2 ^ nat (52 - e)) d div 2 ^ nat (52 - e) = n div d"
    by (rule floor_of_rounded_quotient) (use U d n in simp_all)
  then show ?thesis
    using False down by (simp add: floorDiv_def toDouble_def e_def Let_def)
qed

section \<open>The transcript assembler\<close>

lemma digitsValue_snoc: "digitsValue (ds @ [c]) = 10 * digitsValue ds + (c - 48)"
  by (simp add: digitsValue_def)

lemma toDecimal_small: "n < 10 \<Longrightarrow> toDecimal n = [48 + n]"
  by (subst toDecimal.simps) simp

lemma toDecimal_large: "\<not> n < 10 \<Longrightarrow> toDecimal n = toDecimal (n div 10) @ [48 + n mod 10]"
  by (subst toDecimal.simps) simp

lemma toDecimal_digits:
  "0 \<le> n \<Longrightarrow> digitsValue (toDecimal n) = n \<and> list_all isDigit (toDecimal n) \<and> toDecimal n \<noteq> []"
proof (induction n rule: toDecimal.induct)
  case (1 n)
  show ?case
  proof (cases "n < 10")
    case True
    with "1.prems" show ?thesis
      by (simp add: toDecimal_small digitsValue_def isDigit_def)
  next
    case False
    with "1.prems" have "0 \<le> n div 10" by simp
    with "1.IH" False have ih: "digitsValue (toDecimal (n div 10)) = n div 10"
      "list_all isDigit (toDecimal (n div 10))" by simp_all
    have "0 \<le> n mod 10" "n mod 10 < 10" by simp_all
    then have m: "isDigit (48 + n mod 10)" by (simp add: isDigit_def)
    show ?thesis
      using False ih m by (simp add: toDecimal_large digitsValue_snoc)
  qed
qed

lemma toDecimal_length: "0 \<le> n \<Longrightarrow> (length (toDecimal n) \<le> 2 \<longleftrightarrow> n < 100)"
proof -
  assume n: "0 \<le> n"
  show ?thesis
  proof (cases "n < 10")
    case True
    then show ?thesis by (simp add: toDecimal_small)
  next
    case False
    note big = this
    show ?thesis
    proof (cases "n div 10 < 10")
      case True
      then have "length (toDecimal (n div 10)) = 1" by (simp add: toDecimal_small)
      moreover have "length (toDecimal n) = length (toDecimal (n div 10)) + 1"
        using toDecimal_large [OF big] by simp
      moreover have "n < 100" using True by presburger
      ultimately show ?thesis by linarith
    next
      case False
      then have "toDecimal (n div 10) = toDecimal (n div 10 div 10) @ [48 + n div 10 mod 10]"
        by (rule toDecimal_large)
      then have "length (toDecimal (n div 10)) = length (toDecimal (n div 10 div 10)) + 1"
        by simp
      moreover have "length (toDecimal n) = length (toDecimal (n div 10)) + 1"
        using toDecimal_large [OF big] by simp
      moreover have "0 \<le> n div 10 div 10" using n by simp
      then have "toDecimal (n div 10 div 10) \<noteq> []"
        using toDecimal_digits [of "n div 10 div 10"] by blast
      then have "0 < length (toDecimal (n div 10 div 10))" by simp
      moreover have "\<not> n < 100" using False by presburger
      ultimately show ?thesis by linarith
    qed
  qed
qed

lemma concat_replicate_single: "concat (replicate k [x]) = replicate k x"
  by (induction k) simp_all

lemma padStart_zero: "padStart 2 (str ''0'') s = replicate (2 - length s) 48 @ s"
  by (simp add: padStart_def str_def concat_replicate_single)

lemma digitsValue_zeros: "digitsValue (replicate k 48 @ s) = digitsValue s"
  by (induction k) (simp_all add: digitsValue_def)

lemma isDigit_zeros: "list_all isDigit (replicate k 48)"
  by (induction k) (simp_all add: isDigit_def)

text \<open>A number field of a timestamp: the decimal digits of the value, with zeros in front
  up to two characters.\<close>

lemma field_digits:
  assumes "0 \<le> n"
  shows "digitsValue (padStart 2 (str ''0'') (toString (Num n))) = n"
    and "list_all isDigit (padStart 2 (str ''0'') (toString (Num n)))"
    and "2 \<le> length (padStart 2 (str ''0'') (toString (Num n)))"
    and "length (padStart 2 (str ''0'') (toString (Num n))) = 2 \<longleftrightarrow> n < 100"
proof -
  have t: "toString (Num n) = toDecimal n" by (simp add: toString_def)
  note d = toDecimal_digits [OF assms]
  show "digitsValue (padStart 2 (str ''0'') (toString (Num n))) = n"
    using d by (simp add: t padStart_zero digitsValue_zeros)
  show "list_all isDigit (padStart 2 (str ''0'') (toString (Num n)))"
    using d by (simp add: t padStart_zero isDigit_zeros)
  show "2 \<le> length (padStart 2 (str ''0'') (toString (Num n)))"
    by (simp add: t padStart_zero)
  show "length (padStart 2 (str ''0'') (toString (Num n))) = 2 \<longleftrightarrow> n < 100"
    using toDecimal_length [OF assms] by (auto simp: t padStart_zero)
qed

lemma timestampLine_fields:
  assumes "0 \<le> n" "n < 2 ^ 53"
  shows "timestampLine \<lparr>text' = t, offset = Num n, duration = d\<rparr> =
           str ''['' @ padStart 2 (str ''0'') (toString (Num (n div 1000 div 60))) @ str '':'' @
           padStart 2 (str ''0'') (toString (Num (n div 1000 mod 60))) @ str ''] '' @ t"
proof -
  have a: "floorDiv (Num n) 1000 = Num (n div 1000)"
    using assms by (simp add: floorDiv_exact)
  have "n div 1000 \<le> n"
  proof (cases "n = 0")
    case True
    then show ?thesis by simp
  next
    case False
    with assms(1) have "n div 1000 < n" by (intro int_div_less_self) simp_all
    then show ?thesis by simp
  qed
  then have "0 \<le> n div 1000" "n div 1000 < 2 ^ 53"
    using assms by simp_all
  then have b: "floorDiv (Num (n div 1000)) 60 = Num (n div 1000 div 60)"
    by (simp add: floorDiv_exact)
  show ?thesis
    by (simp add: timestampLine_def a b remainder_def)
qed

lemma join_Cons: "join sep (x # xs) = x @ concat (map (\<lambda>y. sep @ y) xs)"
  by (induction sep xs arbitrary: x rule: join.induct) simp_all

text \<open>
  Claim C5. For a non-empty sequence of segments, \<open>plainText\<close> is the texts joined by
  one space and \<open>timestampedText\<close> is one entry per segment, joined by line feeds. For
  an offset of \<open>n\<close> milliseconds (an integer below \<open>2\<^sup>5\<^sup>3\<close>) the entry is
  \<^verbatim>\<open>[MM:SS] text\<close>: both fields are decimal digits, \<open>SS\<close> has two characters and
  the value \<open>floor (n / 1000) mod 60\<close>, and \<open>MM\<close> has at least two characters and the
  value \<open>floor (n / 1000) div 60\<close>, whatever its size: two characters exactly when
  that is below 100, more beyond, never wrapped into hours.
\<close>

theorem assembled_views:
  "plainText (seg # segs) = text' seg @ concat (map (\<lambda>s. str '' '' @ text' s) segs) \<and>
   timestampedText (seg # segs) = timestampLine seg @ concat (map (\<lambda>s. [10] @ timestampLine s) segs) \<and>
   (0 \<le> n \<and> n < 2 ^ 53 \<longrightarrow>
      (\<exists>mm ss.
         timestampLine \<lparr>text' = t, offset = Num n, duration = d\<rparr> =
           str ''['' @ mm @ str '':'' @ ss @ str ''] '' @ t \<and>
         list_all isDigit mm \<and> digitsValue mm = n div 1000 div 60 \<and> 2 \<le> length mm \<and>
         (length mm = 2 \<longleftrightarrow> n div 1000 div 60 < 100) \<and>
         list_all isDigit ss \<and> digitsValue ss = n div 1000 mod 60 \<and> length ss = 2))"
proof (intro conjI impI)
  show "plainText (seg # segs) = text' seg @ concat (map (\<lambda>s. str '' '' @ text' s) segs)"
    by (simp add: plainText_def join_Cons comp_def)
  show "timestampedText (seg # segs) = timestampLine seg @ concat (map (\<lambda>s. [10] @ timestampLine s) segs)"
    by (simp add: timestampedText_def join_Cons comp_def)
next
  assume n: "0 \<le> n \<and> n < 2 ^ 53"
  let ?mm = "padStart 2 (str ''0'') (toString (Num (n div 1000 div 60)))"
  let ?ss = "padStart 2 (str ''0'') (toString (Num (n div 1000 mod 60)))"
  have n0: "0 \<le> n" using n by simp
  have m: "0 \<le> n div 1000 div 60" using n0 by (simp add: pos_imp_zdiv_nonneg_iff)
  have s: "0 \<le> n div 1000 mod 60" "n div 1000 mod 60 < 100"
    by (simp, rule less_trans [of _ 60], simp_all)
  have "timestampLine \<lparr>text' = t, offset = Num n, duration = d\<rparr> =
          str ''['' @ ?mm @ str '':'' @ ?ss @ str ''] '' @ t"
    using n by (simp add: timestampLine_fields)
  moreover have "list_all isDigit ?mm" "digitsValue ?mm = n div 1000 div 60" "2 \<le> length ?mm"
    "length ?mm = 2 \<longleftrightarrow> n div 1000 div 60 < 100"
    using field_digits [OF m] by blast+
  moreover have "list_all isDigit ?ss" "digitsValue ?ss = n div 1000 mod 60" "length ?ss = 2"
    using field_digits [OF s(1)] s(2) by blast+
  ultimately show "\<exists>mm ss.
         timestampLine \<lparr>text' = t, offset = Num n, duration = d\<rparr> =
           str ''['' @ mm @ str '':'' @ ss @ str ''] '' @ t \<and>
         list_all isDigit mm \<and> digitsValue mm = n div 1000 div 60 \<and> 2 \<le> length mm \<and>
         (length mm = 2 \<longleftrightarrow> n div 1000 div 60 < 100) \<and>
         list_all isDigit ss \<and> digitsValue ss = n div 1000 mod 60 \<and> length ss = 2"
    by blast
qed

text \<open>The segments at 1000 and 2000 milliseconds with the texts \<^verbatim>\<open>Hello\<close> and
  \<^verbatim>\<open>World\<close>.\<close>

theorem assembled_views_witness:
  "(0::int) \<le> 1000 \<and> (1000::int) < 2 ^ 53 \<and>
   plainText [\<lparr>text' = str ''Hello'', offset = Num 1000, duration = Num 500\<rparr>,
              \<lparr>text' = str ''World'', offset = Num 2000, duration = Num 500\<rparr>] = str ''Hello World'' \<and>
   timestampedText [\<lparr>text' = str ''Hello'', offset = Num 1000, duration = Num 500\<rparr>,
                    \<lparr>text' = str ''World'', offset = Num 2000, duration = Num 500\<rparr>] =
     str ''[00:01] Hello\<newline>[00:02] World'' \<and>
   (\<exists>mm ss. timestampLine \<lparr>text' = str ''Hello'', offset = Num 1000, duration = Num 500\<rparr> =
        str ''['' @ mm @ str '':'' @ ss @ str ''] '' @ str ''Hello'' \<and>
      digitsValue mm = 0 \<and> digitsValue ss = 1 \<and> length mm = 2 \<and> length ss = 2)"
proof -
  have h: "timestampLine \<lparr>text' = str ''Hello'', offset = Num 1000, duration = Num 500\<rparr> = str ''[00:01] Hello''"
    by code_simp
  have w: "timestampLine \<lparr>text' = str ''World'', offset = Num 2000, duration = Num 500\<rparr> = str ''[00:02] World''"
    by code_simp
  have r: "(0::int) \<le> 1000 \<and> (1000::int) < 2 ^ 53" by simp
  note inst = assembled_views
      [of "\<lparr>text' = str ''Hello'', offset = Num 1000, duration = Num 500\<rparr>"
          "[\<lparr>text' = str ''World'', offset = Num 2000, duration = Num 500\<rparr>]"
          1000 "str ''Hello''" "Num 500"]
  from inst have "plainText [\<lparr>text' = str ''Hello'', offset = Num 1000, duration = Num 500\<rparr>,
              \<lparr>text' = str ''World'', offset = Num 2000, duration = Num 500\<rparr>] = str ''Hello World''"
    by (simp add: str_def)
  moreover from inst have "timestampedText [\<lparr>text' = str ''Hello'', offset = Num 1000, duration = Num 500\<rparr>,
                    \<lparr>text' = str ''World'', offset = Num 2000, duration = Num 500\<rparr>] =
     str ''[00:01] Hello\<newline>[00:02] World''"
    by (simp add: h w) (simp add: str_def)
  moreover from inst r have "\<exists>mm ss. timestampLine \<lparr>text' = str ''Hello'', offset = Num 1000, duration = Num 500\<rparr> =
        str ''['' @ mm @ str '':'' @ ss @ str ''] '' @ str ''Hello'' \<and>
      digitsValue mm = 0 \<and> digitsValue ss = 1 \<and> length mm = 2 \<and> length ss = 2"
    by auto
  ultimately show ?thesis using r by blast
qed

section \<open>The segment parser\<close>

lemma execAll_nonempty_iff:
  "execAll re k s \<noteq> [] \<longleftrightarrow> (\<exists>p. k \<le> p \<and> p < length s \<and> re (drop p s) \<noteq> None)"
proof (induction re k s rule: execAll.induct)
  case (1 re k)
  then show ?case by simp
next
  case (2 re k c cs)
  have "(\<exists>p. Suc k \<le> p \<and> p < length (c # cs) \<and> re (drop p (c # cs)) \<noteq> None) \<longleftrightarrow>
        (\<exists>p. k \<le> p \<and> p < length cs \<and> re (drop p cs) \<noteq> None)"
  proof
    assume "\<exists>p. Suc k \<le> p \<and> p < length (c # cs) \<and> re (drop p (c # cs)) \<noteq> None"
    then obtain p where p: "Suc k \<le> p" "p < length (c # cs)" "re (drop p (c # cs)) \<noteq> None" by blast
    then obtain q where "p = Suc q" by (cases p) simp_all
    with p have "k \<le> q \<and> q < length cs \<and> re (drop q cs) \<noteq> None" by simp
    then show "\<exists>p. k \<le> p \<and> p < length cs \<and> re (drop p cs) \<noteq> None" by blast
  next
    assume "\<exists>p. k \<le> p \<and> p < length cs \<and> re (drop p cs) \<noteq> None"
    then obtain q where "k \<le> q" "q < length cs" "re (drop q cs) \<noteq> None" by blast
    then have "Suc k \<le> Suc q \<and> Suc q < length (c # cs) \<and> re (drop (Suc q) (c # cs)) \<noteq> None" by simp
    then show "\<exists>p. Suc k \<le> p \<and> p < length (c # cs) \<and> re (drop p (c # cs)) \<noteq> None" by blast
  qed
  with "2.IH" show ?case by simp
next
  case (3 re c cs)
  show ?case
  proof (cases "re (c # cs)")
    case None
    have "(\<exists>p. 0 \<le> p \<and> p < length (c # cs) \<and> re (drop p (c # cs)) \<noteq> None) \<longleftrightarrow>
          (\<exists>p. 0 \<le> p \<and> p < length cs \<and> re (drop p cs) \<noteq> None)"
    proof
      assume "\<exists>p. 0 \<le> p \<and> p < length (c # cs) \<and> re (drop p (c # cs)) \<noteq> None"
      then obtain p where p: "p < length (c # cs)" "re (drop p (c # cs)) \<noteq> None" by blast
      with None obtain q where "p = Suc q" by (cases p) simp_all
      with p have "0 \<le> q \<and> q < length cs \<and> re (drop q cs) \<noteq> None" by simp
      then show "\<exists>p. 0 \<le> p \<and> p < length cs \<and> re (drop p cs) \<noteq> None" by blast
    next
      assume "\<exists>p. 0 \<le> p \<and> p < length cs \<and> re (drop p cs) \<noteq> None"
      then obtain q where "q < length cs" "re (drop q cs) \<noteq> None" by blast
      then have "0 \<le> Suc q \<and> Suc q < length (c # cs) \<and> re (drop (Suc q) (c # cs)) \<noteq> None" by simp
      then show "\<exists>p. 0 \<le> p \<and> p < length (c # cs) \<and> re (drop p (c # cs)) \<noteq> None" by blast
    qed
    with None "3.IH"(1) show ?thesis by simp
  next
    case (Some a)
    then have "0 \<le> (0::nat) \<and> 0 < length (c # cs) \<and> re (drop 0 (c # cs)) \<noteq> None" by simp
    then have "\<exists>p. 0 \<le> p \<and> p < length (c # cs) \<and> re (drop p (c # cs)) \<noteq> None" by blast
    with Some show ?thesis by (simp split: prod.splits)
  qed
qed

lemma srv3Loop_eq:
  "srv3Loop ms (isSrv3, segments) = (isSrv3 \<or> ms \<noteq> [], segments @ segmentsOf parseInt ms)"
  by (induction ms arbitrary: isSrv3 segments) (auto simp: segmentsOf_def)

lemma stdLoop_eq: "stdLoop ms segments = segments @ segmentsOf floorMillis ms"
  by (induction ms arbitrary: segments) (auto simp: segmentsOf_def)

lemma segmentsOf_empty_matches: "segmentsOf f [] = []"
  by (simp add: segmentsOf_def)

lemma parseSegments_eq:
  "parseSegments xml =
     (let segments = (if execAll srv3Regex 0 xml \<noteq> [] then segmentsOf parseInt (execAll srv3Regex 0 xml)
                      else segmentsOf floorMillis (execAll stdRegex 0 xml))
      in if segments = [] then Inl NoSegmentsExtracted else Inr segments)"
  by (simp add: parseSegments_def srv3Loop_eq stdLoop_eq segmentsOf_empty_matches Let_def)

lemma segmentsOf_texts:
  "map text' (segmentsOf f ms) = filter (\<lambda>t. t \<noteq> []) (map (\<lambda>m. segmentText (snd (snd m))) ms)"
  by (induction ms) (auto simp: segmentsOf_def)

lemma segmentsOf_nonempty_text: "s \<in> set (segmentsOf f ms) \<Longrightarrow> text' s \<noteq> []"
  by (auto simp: segmentsOf_def)

text \<open>
  Claim C2. The parser takes the payload alone. It runs the pattern of format A
  (\<^verbatim>\<open><p t="..." d="...">\<close>, integer milliseconds read by \<^verbatim>\<open>parseInt\<close>) over
  it and keeps what that gives whenever the pattern matched at some position; it
  runs the pattern of format B (\<^verbatim>\<open><text start="..." dur="...">\<close>) exactly when
  format A matched nowhere. The times of format B are
  \<^verbatim>\<open>Math.floor(parseFloat(s) * 1000)\<close> in double arithmetic: 1.5 seconds are 1500
  milliseconds, and 32.3 seconds are 32299.
\<close>

theorem parseSegments_autodetect:
  "parseSegments xml =
     (let segments = (if execAll srv3Regex 0 xml \<noteq> [] then segmentsOf parseInt (execAll srv3Regex 0 xml)
                      else segmentsOf floorMillis (execAll stdRegex 0 xml))
      in if segments = [] then Inl NoSegmentsExtracted else Inr segments) \<and>
   (execAll srv3Regex 0 xml \<noteq> [] \<longleftrightarrow> (\<exists>p<length xml. srv3Regex (drop p xml) \<noteq> None)) \<and>
   (execAll stdRegex 0 xml \<noteq> [] \<longleftrightarrow> (\<exists>p<length xml. stdRegex (drop p xml) \<noteq> None)) \<and>
   floorMillis (str ''1.5'') = Num 1500 \<and> floorMillis (str ''32.3'') = Num 32299 \<and>
   floorMillis (str ''0'') = Num 0"
proof -
  have "floorMillis (str ''1.5'') = Num 1500" "floorMillis (str ''32.3'') = Num 32299"
    "floorMillis (str ''0'') = Num 0"
    by code_simp+
  then show ?thesis
    using parseSegments_eq [of xml] execAll_nonempty_iff [of srv3Regex 0 xml]
      execAll_nonempty_iff [of stdRegex 0 xml]
    by simp
qed

text \<open>A payload of format B alone, and a payload in which a tag of format A precedes
  tags of format B: the first is read as format B, the second as format A.\<close>

theorem parseSegments_autodetect_witness:
  "parseSegments (str ''<text start=\"1.5\" dur=\"2\">Hi</text>'') =
     Inr [\<lparr>text' = str ''Hi'', offset = Num 1500, duration = Num 2000\<rparr>] \<and>
   parseSegments (str ''<p t=\"7\" d=\"2\">A</p><text start=\"1.5\" dur=\"2\">B</text>'') =
     Inr [\<lparr>text' = str ''A'', offset = Num 7, duration = Num 2\<rparr>]"
proof -
  have a: "execAll srv3Regex 0 (str ''<text start=\"1.5\" dur=\"2\">Hi</text>'') = []"
    by code_simp
  have b: "segmentsOf floorMillis (execAll stdRegex 0 (str ''<text start=\"1.5\" dur=\"2\">Hi</text>'')) =
             [\<lparr>text' = str ''Hi'', offset = Num 1500, duration = Num 2000\<rparr>]"
    by code_simp
  have c: "segmentsOf parseInt (execAll srv3Regex 0 (str ''<p t=\"7\" d=\"2\">A</p><text start=\"1.5\" dur=\"2\">B</text>'')) =
             [\<lparr>text' = str ''A'', offset = Num 7, duration = Num 2\<rparr>]"
    by code_simp
  then have d: "execAll srv3Regex 0 (str ''<p t=\"7\" d=\"2\">A</p><text start=\"1.5\" dur=\"2\">B</text>'') \<noteq> []"
    by (auto simp: segmentsOf_def)
  show ?thesis
    using parseSegments_autodetect [of "str ''<text start=\"1.5\" dur=\"2\">Hi</text>''"]
      parseSegments_autodetect [of "str ''<p t=\"7\" d=\"2\">A</p><text start=\"1.5\" dur=\"2\">B</text>''"]
    by (simp add: a b c d Let_def)
qed

text \<open>
  What the parser drops. A match whose text is empty when it is tested gives no segment:
  the texts of the segments are the non-empty texts of the matches, in order. The parser
  answers with a non-empty list of segments with non-empty texts, or with the error
  \<open>NoSegmentsExtracted\<close>, and it answers with the error when neither format gives a
  segment.
\<close>

theorem parseSegments_drops_empty:
  "(parseSegments xml = Inr segments \<longrightarrow> segments \<noteq> [] \<and> (\<forall>s\<in>set segments. text' s \<noteq> [])) \<and>
   (parseSegments xml = Inl e \<longrightarrow> e = NoSegmentsExtracted) \<and>
   (segmentsOf parseInt (execAll srv3Regex 0 xml) = [] \<and> segmentsOf floorMillis (execAll stdRegex 0 xml) = []
      \<longrightarrow> parseSegments xml = Inl NoSegmentsExtracted) \<and>
   map text' (segmentsOf f ms) = filter (\<lambda>t. t \<noteq> []) (map (\<lambda>m. segmentText (snd (snd m))) ms) \<and>
   parseSegments (str ''<text start=\"0\" dur=\"1\">   </text>'') = Inl NoSegmentsExtracted"
proof (intro conjI impI)
  assume "parseSegments xml = Inr segments"
  then have "segments \<noteq> [] \<and> (segments = segmentsOf parseInt (execAll srv3Regex 0 xml) \<or>
     segments = segmentsOf floorMillis (execAll stdRegex 0 xml))"
    by (auto simp: parseSegments_eq Let_def split: if_splits)
  then show "segments \<noteq> []" "\<forall>s\<in>set segments. text' s \<noteq> []"
    by (auto dest: segmentsOf_nonempty_text)
next
  assume "parseSegments xml = Inl e"
  then show "e = NoSegmentsExtracted"
    by (auto simp: parseSegments_eq Let_def split: if_splits)
next
  assume "segmentsOf parseInt (execAll srv3Regex 0 xml) = [] \<and> segmentsOf floorMillis (execAll stdRegex 0 xml) = []"
  then show "parseSegments xml = Inl NoSegmentsExtracted"
    by (simp add: parseSegments_eq Let_def)
next
  show "map text' (segmentsOf f ms) = filter (\<lambda>t. t \<noteq> []) (map (\<lambda>m. segmentText (snd (snd m))) ms)"
    by (rule segmentsOf_texts)
  show "parseSegments (str ''<text start=\"0\" dur=\"1\">   </text>'') = Inl NoSegmentsExtracted"
    by code_simp
qed

text \<open>A payload with a blank tag before a tag with text: one segment.\<close>

theorem parseSegments_drops_empty_witness:
  "parseSegments (str ''<p t=\"1\" d=\"2\"> </p><p t=\"3\" d=\"4\">Hi</p>'') =
     Inr [\<lparr>text' = str ''Hi'', offset = Num 3, duration = Num 4\<rparr>] \<and>
   [\<lparr>text' = str ''Hi'', offset = Num 3, duration = Num 4\<rparr>] \<noteq> [] \<and>
   text' \<lparr>text' = str ''Hi'', offset = Num 3, duration = Num 4\<rparr> \<noteq> [] \<and>
   parseSegments (str ''<p t=\"1\" d=\"2\"> </p>'') = Inl NoSegmentsExtracted"
proof -
  have a: "parseSegments (str ''<p t=\"1\" d=\"2\"> </p><p t=\"3\" d=\"4\">Hi</p>'') =
     Inr [\<lparr>text' = str ''Hi'', offset = Num 3, duration = Num 4\<rparr>]"
    by code_simp
  have b: "segmentsOf parseInt (execAll srv3Regex 0 (str ''<p t=\"1\" d=\"2\"> </p>'')) = []"
    "segmentsOf floorMillis (execAll stdRegex 0 (str ''<p t=\"1\" d=\"2\"> </p>'')) = []"
    by code_simp+
  from parseSegments_drops_empty
         [of "str ''<p t=\"1\" d=\"2\"> </p><p t=\"3\" d=\"4\">Hi</p>''"
             "[\<lparr>text' = str ''Hi'', offset = Num 3, duration = Num 4\<rparr>]"] a
  have "[\<lparr>text' = str ''Hi'', offset = Num 3, duration = Num 4\<rparr>] \<noteq> [] \<and>
        text' \<lparr>text' = str ''Hi'', offset = Num 3, duration = Num 4\<rparr> \<noteq> []"
    by simp
  moreover from parseSegments_drops_empty [of "str ''<p t=\"1\" d=\"2\"> </p>''"] b
  have "parseSegments (str ''<p t=\"1\" d=\"2\"> </p>'') = Inl NoSegmentsExtracted"
    by blast
  ultimately show ?thesis using a by simp
qed

text \<open>
  Claim C4 fails on a payload whose text is a blank written as a reference: the route
  trims before it decodes, so the text \<^verbatim>\<open>&#32;\<close> is not empty when it is tested, the
  segment is kept with a blank as its text, and the parser answers with that segment
  instead of the error. The normalisation of the claim, and the earlier parser, which
  trims after decoding, give the empty text there. The example of the claim, a payload
  of blanks, gives the error.
\<close>

theorem parseSegments_retains_decoded_blank:
  "parseSegments (str ''<text start=\"0\" dur=\"1\">&#32;</text>'') =
     Inr [\<lparr>text' = str '' '', offset = Num 0, duration = Num 1000\<rparr>] \<and>
   parseSegments (str ''<p t=\"0\" d=\"1\">&#32;</p>'') =
     Inr [\<lparr>text' = str '' '', offset = Num 0, duration = Num 1\<rparr>] \<and>
   plainText [\<lparr>text' = str '' '', offset = Num 0, duration = Num 1000\<rparr>] = str '' '' \<and>
   specNormalize (str ''&#32;'') = [] \<and>
   trim (decodeXmlEntities (str ''&#32;'')) = [] \<and>
   parseSegments (str ''<text start=\"0\" dur=\"1\">   </text>'') = Inl NoSegmentsExtracted"
  by code_simp

section \<open>The normalisation of a payload\<close>


lemma replaceAll_miss: "re (c # cs) = None \<Longrightarrow> replaceAll re 0 (c # cs) = c # replaceAll re 0 cs"
  by simp

















lemma numericRefAt_amp: "s = [] \<or> hd s \<noteq> 38 \<Longrightarrow> numericRefAt s = None"
  by (cases s) (auto simp: numericRefAt_def str_def)












lemma numeric_prefix:
  "38 \<notin> set pre \<Longrightarrow> replaceAll numericRefAt 0 (pre @ t) = pre @ replaceAll numericRefAt 0 t"
proof (induction pre)
  case Nil
  then show ?case by simp
next
  case (Cons a pre)
  then have "numericRefAt (a # pre @ t) = None"
    using numericRefAt_amp [of "a # pre @ t"] by simp
  with Cons show ?case by simp
qed































section \<open>The tracks of a watch page\<close>

text \<open>The pattern \<^verbatim>\<open>"captionTracks":\s*(\[.*?\])\<close> against its language: the marker,
  blanks, and a bracketed capture on one line that ends at the first closing bracket.\<close>

lemma captionTracksAt_Some_D:
  assumes "captionTracksAt s = Some capture"
  shows "\<exists>ws body rest.
           s = str ''\"captionTracks\":'' @ ws @ capture @ rest \<and> list_all isWhiteSpace ws \<and>
           capture = 91 # body @ [93] \<and> 93 \<notin> set body \<and> list_all (\<lambda>c. \<not> isLineTerminator c) body"
proof -
  let ?P = "\<lambda>c. c \<noteq> 93 \<and> \<not> isLineTerminator c"
  from assms obtain r1 r2 r3 where
    r: "s = str ''\"captionTracks\":'' @ r1" "dropWhile isWhiteSpace r1 = 91 # r2"
       "dropWhile ?P r2 = 93 # r3" "capture = 91 # takeWhile ?P r2 @ [93]"
    by (auto simp: captionTracksAt_def lit_iff bind_eq_Some_conv str_def)
  have a: "r1 = takeWhile isWhiteSpace r1 @ 91 # r2"
    using r(2) takeWhile_dropWhile_id [of isWhiteSpace r1] by simp
  have b: "r2 = takeWhile ?P r2 @ 93 # r3"
    using r(3) takeWhile_dropWhile_id [of ?P r2] by simp
  have "s = str ''\"captionTracks\":'' @ takeWhile isWhiteSpace r1 @ capture @ r3"
    using r(1,4) a b by simp
  moreover have "list_all isWhiteSpace (takeWhile isWhiteSpace r1)"
    by (auto simp: list_all_iff dest: set_takeWhileD)
  moreover have "93 \<notin> set (takeWhile ?P r2)" "list_all (\<lambda>c. \<not> isLineTerminator c) (takeWhile ?P r2)"
    by (auto simp: list_all_iff dest: set_takeWhileD)
  ultimately show ?thesis using r(4) by blast
qed

lemma lazyDots_Some_D: "lazyDots k s = Some m \<Longrightarrow> \<exists>q\<le>length s. k (drop q s) = Some m"
proof (induction s)
  case Nil
  then show ?case by simp
next
  case (Cons c cs)
  show ?case
  proof (cases "k (c # cs)")
    case (Some a)
    with Cons.prems have "k (drop 0 (c # cs)) = Some m" by simp
    then show ?thesis by blast
  next
    case None
    with Cons.prems have "lazyDots k cs = Some m" by (simp split: if_splits)
    from Cons.IH [OF this] obtain q where "q \<le> length cs" "k (drop q cs) = Some m" by blast
    then have "Suc q \<le> length (c # cs) \<and> k (drop (Suc q) (c # cs)) = Some m" by simp
    then show ?thesis by blast
  qed
qed

lemma altCaptionTracksAt_Some_D:
  assumes "altCaptionTracksAt s = Some m"
  shows "\<exists>q\<le>length s. captionTracksAt (drop q s) = Some m"
proof -
  let ?l = "str ''playerCaptionsTracklistRenderer''"
  from assms obtain r where r: "s = ?l @ r" "lazyDots captionTracksAt r = Some m"
    by (auto simp: altCaptionTracksAt_def lit_iff bind_eq_Some_conv)
  from lazyDots_Some_D [OF r(2)] obtain q where q: "q \<le> length r" "captionTracksAt (drop q r) = Some m"
    by blast
  have "drop (length ?l + q) s = drop q r" using r(1) by simp
  with q have "length ?l + q \<le> length s \<and> captionTracksAt (drop (length ?l + q) s) = Some m"
    using r(1) by simp
  then show ?thesis by blast
qed

text \<open>Wherever the second pattern matches, the first one matches too: the plain scan
  finds the marker under \<^verbatim>\<open>playerCaptionsTracklistRenderer\<close> as well.\<close>

lemma alt_implies_plain:
  assumes "searchFrom altCaptionTracksAt html \<noteq> None"
  shows "searchFrom captionTracksAt html \<noteq> None"
proof -
  from assms obtain m where "searchFrom altCaptionTracksAt html = Some m" by blast
  from searchFrom_Some_D [OF this] obtain p where p: "p \<le> length html"
      "altCaptionTracksAt (drop p html) = Some m" by blast
  from altCaptionTracksAt_Some_D [OF p(2)] obtain q where q: "q \<le> length (drop p html)"
      "captionTracksAt (drop q (drop p html)) = Some m" by blast
  have "p + q \<le> length html \<and> captionTracksAt (drop (p + q) html) = Some m"
    using p(1) q by (simp add: add.commute)
  then have "\<not> (\<forall>n\<le>length html. captionTracksAt (drop n html) = None)" by force
  then show ?thesis by (simp add: searchFrom_None_iff)
qed

lemma captionTracksAt_nonempty: "captionTracksAt s = Some capture \<Longrightarrow> capture \<noteq> []"
  by (auto dest: captionTracksAt_Some_D)

lemma searchFrom_captionTracks_nonempty: "searchFrom captionTracksAt html = Some capture \<Longrightarrow> capture \<noteq> []"
  by (auto dest!: searchFrom_Some_D captionTracksAt_nonempty)

lemma extractCaptionTracks_eq:
  "extractCaptionTracks parser html =
     (case searchFrom captionTracksAt html of
        None \<Rightarrow> Inl NoCaptionsAvailable
      | Some capture \<Rightarrow>
          (case parser capture of
             None \<Rightarrow> Inl CaptionParseFailed
           | Some tracks \<Rightarrow> if tracks = [] then Inl NoCaptionTracks else Inr tracks))"
proof (cases "searchFrom captionTracksAt html")
  case None
  then have "searchFrom altCaptionTracksAt html = None"
    using alt_implies_plain [of html] by blast
  with None show ?thesis by (simp add: extractCaptionTracks_def)
next
  case (Some capture)
  then have "capture \<noteq> []" by (rule searchFrom_captionTracks_nonempty)
  with Some show ?thesis
    by (simp add: extractCaptionTracks_def JSON_parse_def split: option.splits)
qed

text \<open>
  Claim C6. The tracks come from a scan of the page for the marker
  \<^verbatim>\<open>"captionTracks":\<close> followed by a bracketed capture. The scan finds the marker
  wherever it stands: whenever the pattern for the location under
  \<^verbatim>\<open>playerCaptionsTracklistRenderer\<close> matches, the plain pattern matches. The adapter
  answers with tracks only when the parser accepted the matched capture and gave a non-empty
  array; when the parser throws on the capture, the adapter fails with
  \<open>CaptionParseFailed\<close>, and \<^verbatim>\<open>fetchTranscript\<close> stops there, after the fetch of
  the page and before any fetch of captions.
\<close>

theorem extractCaptionTracks_fails_closed:
  "(searchFrom altCaptionTracksAt html \<noteq> None \<longrightarrow> searchFrom captionTracksAt html \<noteq> None) \<and>
   (extractCaptionTracks parser html = Inl NoCaptionsAvailable \<longleftrightarrow> searchFrom captionTracksAt html = None) \<and>
   (searchFrom captionTracksAt html = Some capture \<longrightarrow>
      (\<exists>pre ws body rest.
         html = pre @ str ''\"captionTracks\":'' @ ws @ capture @ rest \<and> list_all isWhiteSpace ws \<and>
         capture = 91 # body @ [93] \<and> 93 \<notin> set body \<and> list_all (\<lambda>c. \<not> isLineTerminator c) body)) \<and>
   (searchFrom captionTracksAt html = Some capture \<and> parser capture = None \<longrightarrow>
      extractCaptionTracks parser html = Inl CaptionParseFailed) \<and>
   (extractCaptionTracks parser html = Inr tracks \<longrightarrow>
      tracks \<noteq> [] \<and> (\<exists>capture. searchFrom captionTracksAt html = Some capture \<and> parser capture = Some tracks)) \<and>
   (fetch w (str ''https://www.youtube.com/watch?v='' @ videoId) = Response True html \<and>
    searchFrom captionTracksAt html = Some capture \<and> jsonParse w capture = None \<longrightarrow>
      fetchTranscript w videoId st = (Inl CaptionParseFailed, called WatchPageFetch st))"
proof (intro conjI impI)
  assume "searchFrom altCaptionTracksAt html \<noteq> None"
  then show "searchFrom captionTracksAt html \<noteq> None" by (rule alt_implies_plain)
next
  show "extractCaptionTracks parser html = Inl NoCaptionsAvailable \<longleftrightarrow> searchFrom captionTracksAt html = None"
    by (simp add: extractCaptionTracks_eq split: option.splits)
next
  assume "searchFrom captionTracksAt html = Some capture"
  from searchFrom_Some_D [OF this] obtain p where p: "p \<le> length html"
      "captionTracksAt (drop p html) = Some capture" by blast
  from captionTracksAt_Some_D [OF p(2)] obtain ws body rest where
    d: "drop p html = str ''\"captionTracks\":'' @ ws @ capture @ rest" "list_all isWhiteSpace ws"
       "capture = 91 # body @ [93]" "93 \<notin> set body" "list_all (\<lambda>c. \<not> isLineTerminator c) body"
    by blast
  have "html = take p html @ str ''\"captionTracks\":'' @ ws @ capture @ rest"
    using d(1) append_take_drop_id [of p html] by simp
  with d show "\<exists>pre ws body rest.
         html = pre @ str ''\"captionTracks\":'' @ ws @ capture @ rest \<and> list_all isWhiteSpace ws \<and>
         capture = 91 # body @ [93] \<and> 93 \<notin> set body \<and> list_all (\<lambda>c. \<not> isLineTerminator c) body"
    by blast
next
  assume "searchFrom captionTracksAt html = Some capture \<and> parser capture = None"
  then show "extractCaptionTracks parser html = Inl CaptionParseFailed"
    by (simp add: extractCaptionTracks_eq)
next
  assume a: "extractCaptionTracks parser html = Inr tracks"
  then show "tracks \<noteq> []"
    by (auto simp: extractCaptionTracks_eq split: option.splits if_splits)
  from a show "\<exists>capture. searchFrom captionTracksAt html = Some capture \<and> parser capture = Some tracks"
    by (auto simp: extractCaptionTracks_eq split: option.splits if_splits)
next
  assume "fetch w (str ''https://www.youtube.com/watch?v='' @ videoId) = Response True html \<and>
    searchFrom captionTracksAt html = Some capture \<and> jsonParse w capture = None"
  then show "fetchTranscript w videoId st = (Inl CaptionParseFailed, called WatchPageFetch st)"
    by (simp add: fetchTranscript_def extractCaptionTracks_eq)
qed

text \<open>A page with the marker under \<^verbatim>\<open>playerCaptionsTracklistRenderer\<close> and a capture that
  is cut at the first closing bracket, with a parser that throws on it.\<close>

theorem extractCaptionTracks_fails_closed_witness:
  "searchFrom altCaptionTracksAt
     (str ''{\"playerCaptionsTracklistRenderer\":{\"captionTracks\": [{\"name\":\"a]b\"}],\"x\":1}}'') =
     Some (str ''[{\"name\":\"a]'') \<and>
   searchFrom captionTracksAt
     (str ''{\"playerCaptionsTracklistRenderer\":{\"captionTracks\": [{\"name\":\"a]b\"}],\"x\":1}}'') =
     Some (str ''[{\"name\":\"a]'') \<and>
   extractCaptionTracks (\<lambda>s. None)
     (str ''{\"playerCaptionsTracklistRenderer\":{\"captionTracks\": [{\"name\":\"a]b\"}],\"x\":1}}'') =
     Inl CaptionParseFailed \<and>
   extractCaptionTracks (\<lambda>s. Some [\<lparr>baseUrl = Some (str ''u''), languageCode = None, kind = None\<rparr>])
     (str ''{\"captionTracks\":[{\"baseUrl\":\"u\"}]}'') =
     Inr [\<lparr>baseUrl = Some (str ''u''), languageCode = None, kind = None\<rparr>] \<and>
   extractCaptionTracks (\<lambda>s. None) (str ''<html>no captions</html>'') = Inl NoCaptionsAvailable"
proof -
  let ?page = "str ''{\"playerCaptionsTracklistRenderer\":{\"captionTracks\": [{\"name\":\"a]b\"}],\"x\":1}}''"
  let ?good = "str ''{\"captionTracks\":[{\"baseUrl\":\"u\"}]}''"
  let ?track = "\<lparr>baseUrl = Some (str ''u''), languageCode = None, kind = None\<rparr>"
  have a: "searchFrom altCaptionTracksAt ?page = Some (str ''[{\"name\":\"a]'')"
    by code_simp
  have b: "searchFrom captionTracksAt ?page = Some (str ''[{\"name\":\"a]'')"
    by code_simp
  have c: "searchFrom captionTracksAt (str ''<html>no captions</html>'') = None"
    by code_simp
  have d: "extractCaptionTracks (\<lambda>s. Some [?track]) ?good = Inr [?track]"
    by code_simp
  have "extractCaptionTracks (\<lambda>s. None) ?page = Inl CaptionParseFailed"
    using extractCaptionTracks_fails_closed [of ?page "\<lambda>s. None" "str ''[{\"name\":\"a]''"] b
    by simp
  moreover have "extractCaptionTracks (\<lambda>s. None) (str ''<html>no captions</html>'') = Inl NoCaptionsAvailable"
    using extractCaptionTracks_fails_closed [of "str ''<html>no captions</html>''" "\<lambda>s. None"] c
    by simp
  ultimately show ?thesis using a b d by simp
qed

section \<open>The route handler\<close>

lemma called_simps:
  "profiles (called c st) = profiles st"
  "transcriptions (called c st) = transcriptions st"
  "calls (called c st) = calls st @ [c]"
  by (simp_all add: called_def)

lemma authenticate_frame:
  "profiles (snd (authenticate w req st)) = profiles st"
  "transcriptions (snd (authenticate w req st)) = transcriptions st"
  by (simp_all add: authenticate_def called_simps Let_def)

lemma creditsCheck_frame:
  "profiles (snd (creditsCheck userId st)) = profiles st"
  "transcriptions (snd (creditsCheck userId st)) = transcriptions st"
  by (simp_all add: creditsCheck_def called_simps split: option.splits)

lemma fetchCaptions_frame:
  "profiles (snd (fetchCaptions w tracks st)) = profiles st"
  "transcriptions (snd (fetchCaptions w tracks st)) = transcriptions st"
  by (simp_all add: fetchCaptions_def called_simps Let_def split: httpResult.splits sum.splits)

lemma fetchTranscript_frame:
  "profiles (snd (fetchTranscript w videoId st)) = profiles st"
  "transcriptions (snd (fetchTranscript w videoId st)) = transcriptions st"
  by (simp_all add: fetchTranscript_def fetchCaptions_frame called_simps split: httpResult.splits sum.splits)

lemma obtainTranscript_frame:
  "profiles (snd (obtainTranscript w req videoId st)) = profiles st"
  "transcriptions (snd (obtainTranscript w req videoId st)) = transcriptions st"
proof -
  obtain r st' where f: "fetchTranscript w videoId (called OEmbedFetch st) = (r, st')"
    by (cases "fetchTranscript w videoId (called OEmbedFetch st)") auto
  have p: "profiles st' = profiles st" "transcriptions st' = transcriptions st"
    using fetchTranscript_frame [of w videoId "called OEmbedFetch st"] f
    by (simp_all add: called_simps)
  show "profiles (snd (obtainTranscript w req videoId st)) = profiles st"
    by (cases r) (auto simp: obtainTranscript_def f p Let_def split: prod.splits)
  show "transcriptions (snd (obtainTranscript w req videoId st)) = transcriptions st"
    by (cases r) (auto simp: obtainTranscript_def f p Let_def split: prod.splits)
qed

lemma obtainTranscript_early:
  "obtainTranscript w req videoId st = (Inl r, st') \<Longrightarrow> \<exists>m. r = Error 422 m True"
  by (auto simp: obtainTranscript_def Let_def split: if_splits prod.splits sum.splits)

lemma summaryStage_frame:
  "profiles (snd (summaryStage w wanted plain meta st)) = profiles st"
  "transcriptions (snd (summaryStage w wanted plain meta st)) = transcriptions st"
  by (simp_all add: summaryStage_def called_simps)

lemma insertTranscription_frame:
  "profiles (snd (insertTranscription w row st)) = profiles st"
  by (simp add: insertTranscription_def called_simps split: option.splits)

lemma decrementCredits_profiles: "profiles (decrementCredits u st) = debit u (profiles st)"
  by (simp add: decrementCredits_def debit_def called_simps split: option.splits)

lemma persist_profiles:
  "profiles (snd (persist w userId row st)) =
     (case userId of None \<Rightarrow> profiles st | Some u \<Rightarrow> debit u (profiles st))"
proof (cases userId)
  case None
  then show ?thesis by (simp add: persist_def)
next
  case (Some u)
  obtain i st' where ins: "insertTranscription w (row\<lparr>user_id := u\<rparr>) st = (i, st')"
    by (cases "insertTranscription w (row\<lparr>user_id := u\<rparr>) st") auto
  have "profiles st' = profiles st"
    using insertTranscription_frame [of w "row\<lparr>user_id := u\<rparr>" st] ins by simp
  with Some ins show ?thesis
    by (simp add: persist_def decrementCredits_profiles)
qed

lemma completeRequest_Ok:
  "\<exists>body. fst (completeRequest w req videoId userId (plain, stamped, language, ttl, channel) st) = Ok body \<and>
     r_videoId body = videoId \<and> r_title body = ttl \<and> r_channel body = channel \<and>
     r_text body = plain \<and> r_timestamped body = stamped \<and> r_language body = language \<and>
     r_wordCount body = wordCount plain \<and>
     (r_summary body, r_summaryError body) = fst (summaryStage w (withSummary req) plain (ttl, channel) st)"
  by (simp add: completeRequest_def split: prod.splits)

lemma completeRequest_profiles:
  "profiles (snd (completeRequest w req videoId userId t st)) =
     (case userId of None \<Rightarrow> profiles st | Some u \<Rightarrow> debit u (profiles st))"
proof -
  obtain plain stamped language ttl channel where t: "t = (plain, stamped, language, ttl, channel)"
    by (cases t) auto
  obtain summ err st1 where su: "summaryStage w (withSummary req) plain (ttl, channel) st = ((summ, err), st1)"
    by (cases "summaryStage w (withSummary req) plain (ttl, channel) st") auto
  have p1: "profiles st1 = profiles st"
    using summaryStage_frame(1) [of w "withSummary req" plain "(ttl, channel)" st] su by simp
  define row where "row = \<lparr>user_id = [], video_id = videoId, video_url = videoUrl req, title = ttl,
                         channel_name = channel, transcript_text = plain,
                         transcript_timestamped = stamped, transcript_language = language,
                         word_count = wordCount plain, summary = summ,
                         processing_time_ms = elapsed w\<rparr>"
  obtain i st2 where pe: "persist w userId row st1 = (i, st2)"
    by (cases "persist w userId row st1") auto
  have "profiles st2 = (case userId of None \<Rightarrow> profiles st | Some u \<Rightarrow> debit u (profiles st))"
    using persist_profiles [of w userId row st1] pe p1 by (simp split: option.splits)
  then show ?thesis
    using pe by (simp add: t completeRequest_def su row_def)
qed

lemma POST_past_transcript:
  assumes "truthy (videoUrl req) \<or> clientTranscript req \<noteq> None"
    and "resolveVideoId req = Some (Some videoId)"
    and "authenticate w req st = (userId, st1)"
    and "creditsCheck userId st1 = (False, st2)"
    and "obtainTranscript w req videoId st2 = (Inr t, st3)"
  shows "POST w req st = completeRequest w req videoId userId t st3"
  using assms by (auto simp: POST_def)

lemma POST_Ok_D:
  assumes "fst (POST w req st) = Ok body"
  shows "\<exists>videoId t st3. POST w req st = completeRequest w req videoId (fst (authenticate w req st)) t st3 \<and>
           profiles st3 = profiles st"
proof -
  from assms have a: "truthy (videoUrl req) \<or> clientTranscript req \<noteq> None"
    by (auto simp: POST_def split: if_splits)
  from assms a obtain videoId where v: "resolveVideoId req = Some (Some videoId)"
    by (cases "resolveVideoId req") (auto simp: POST_def split: option.splits)
  obtain userId st1 where au: "authenticate w req st = (userId, st1)"
    by (cases "authenticate w req st") auto
  obtain rej st2 where cc: "creditsCheck userId st1 = (rej, st2)"
    by (cases "creditsCheck userId st1") auto
  from assms a v au cc have nr: "\<not> rej"
    by (cases rej) (auto simp: POST_def)
  obtain r st3 where ob: "obtainTranscript w req videoId st2 = (r, st3)"
    by (cases "obtainTranscript w req videoId st2") auto
  have "r \<noteq> Inl early" for early
  proof
    assume e: "r = Inl early"
    with ob obtain m where "early = Error 422 m True"
      using obtainTranscript_early [of w req videoId st2 early st3] by auto
    with assms a v au cc nr ob e show False by (auto simp: POST_def)
  qed
  then obtain t where t: "r = Inr t" by (cases r) auto
  have "POST w req st = completeRequest w req videoId userId t st3"
    using a v au cc nr ob t by (intro POST_past_transcript) auto
  moreover have "profiles st3 = profiles st"
    using authenticate_frame(1) [of w req st] creditsCheck_frame(1) [of userId st1]
      obtainTranscript_frame(1) [of w req videoId st2] au cc ob
    by simp
  moreover have "fst (authenticate w req st) = userId" using au by simp
  ultimately show ?thesis by blast
qed

lemma POST_profiles:
  "profiles (snd (POST w req st)) = profiles st \<or>
   (\<exists>u. profiles (snd (POST w req st)) = debit u (profiles st))"
proof -
  obtain userId st1 where au: "authenticate w req st = (userId, st1)"
    by (cases "authenticate w req st") auto
  obtain rej st2 where cc: "creditsCheck userId st1 = (rej, st2)"
    by (cases "creditsCheck userId st1") auto
  have p2: "profiles st2 = profiles st"
    using authenticate_frame(1) [of w req st] creditsCheck_frame(1) [of userId st1] au cc by simp
  show ?thesis
  proof (cases "resolveVideoId req")
    case None
    then show ?thesis by (simp add: POST_def)
  next
    case (Some v)
    show ?thesis
    proof (cases v)
      case None
      with Some show ?thesis by (simp add: POST_def)
    next
      case (Some videoId)
      obtain r st3 where ob: "obtainTranscript w req videoId st2 = (r, st3)"
        by (cases "obtainTranscript w req videoId st2") auto
      have p3: "profiles st3 = profiles st"
        using obtainTranscript_frame(1) [of w req videoId st2] ob p2 by simp
      show ?thesis
      proof (cases r)
        case (Inl early)
        with \<open>resolveVideoId req = Some v\<close> Some au cc ob p2 p3 show ?thesis
          by (cases rej) (auto simp: POST_def)
      next
        case (Inr t)
        have "profiles (snd (completeRequest w req videoId userId t st3)) = profiles st \<or>
              (\<exists>u. profiles (snd (completeRequest w req videoId userId t st3)) = debit u (profiles st))"
          by (cases userId) (auto simp: completeRequest_profiles p3)
        with \<open>resolveVideoId req = Some v\<close> Some au cc ob p2 Inr show ?thesis
          by (cases rej) (auto simp: POST_def)
      qed
    qed
  qed
qed

lemma debit_nonneg:
  assumes "\<And>v q. table v = Some q \<Longrightarrow> 0 \<le> credits_remaining q" "debit u table v = Some q"
  shows "0 \<le> credits_remaining q"
proof (cases "table u")
  case None
  with assms show ?thesis by (simp add: debit_def)
next
  case (Some p)
  show ?thesis
  proof (cases "0 < credits_remaining p \<and> v = u")
    case True
    with Some assms(2) have "q = p\<lparr>credits_remaining := credits_remaining p - 1\<rparr>"
      by (simp add: debit_def)
    with True show ?thesis by simp
  next
    case False
    with Some assms(2) have "table v = Some q"
      by (auto simp: debit_def split: if_splits)
    then show ?thesis by (rule assms(1))
  qed
qed

lemma summaryStage_outcomes:
  "(wanted \<and> plain \<noteq> [] \<and> usable (geminiKey w) \<and>
      generateSummaryGemini w plain meta (the (geminiKey w)) = Inl message
      \<longrightarrow> fst (summaryStage w wanted plain meta st) =
            (None, Some (if message = [] then str ''Unknown summary error'' else message))) \<and>
   (wanted \<and> plain \<noteq> [] \<and> \<not> usable (geminiKey w) \<and> usable (anthropicKey w) \<and>
      generateSummary w plain meta (the (anthropicKey w)) = Inl message
      \<longrightarrow> fst (summaryStage w wanted plain meta st) =
            (None, Some (if message = [] then str ''Unknown summary error'' else message))) \<and>
   (wanted \<and> plain \<noteq> [] \<and> \<not> usable (geminiKey w) \<and> \<not> usable (anthropicKey w)
      \<longrightarrow> fst (summaryStage w wanted plain meta st) =
            (None, Some (str ''No AI key configured (GEMINI_API_KEY or ANTHROPIC_API_KEY)'')))"
  by (simp add: summaryStage_def caught_def orElse_def)

text \<open>The example request in the example world.\<close>

lemma example_resolve: "resolveVideoId clientRequest = Some (Some (str ''dQw4w9WgXcQ''))"
  by (simp add: resolveVideoId_def clientRequest_def truthy_def str_def)

lemma example_valid: "truthy (videoUrl clientRequest) \<or> clientTranscript clientRequest \<noteq> None"
  by (simp add: clientRequest_def)

lemma example_token: "replaceFirst (str ''Bearer '') [] (str ''Bearer token-1'') = str ''token-1''"
  by (simp add: str_def)

lemma example_authenticate:
  "authenticate offline clientRequest st = (Some (str ''user-1''), called AuthGetUser st)"
  by (simp add: authenticate_def clientRequest_def truthy_def example_token offline_def Let_def)
    (simp add: str_def)

lemma example_creditsCheck:
  "creditsCheck (Some (str ''user-1'')) (called AuthGetUser (storeWith p n)) =
     (p = str ''free'' \<and> n \<le> 0, called ProfileSelect (called AuthGetUser (storeWith p n)))"
  by (simp add: creditsCheck_def called_simps storeWith_def)

lemma example_obtain:
  "obtainTranscript offline clientRequest videoId st =
     (Inr (str ''Hello World'', str ''[00:01] Hello'', str ''en'', str ''Unknown'', str ''Unknown''), st)"
  by (simp add: obtainTranscript_def clientRequest_def truthy_def orElse_def Let_def)
    (simp add: str_def)

lemma example_summary:
  "fst (summaryStage offline True (str ''Hello World'') meta st) =
     (None, Some (str ''Gemini API error: 500 - overloaded''))"
  by (simp add: summaryStage_def usable_def truthy_def caught_def orElse_def offline_def)
    (simp add: str_def)

lemma example_POST:
  assumes "\<not> (p = str ''free'' \<and> n \<le> 0)"
  shows "POST offline clientRequest (storeWith p n) =
           completeRequest offline clientRequest (str ''dQw4w9WgXcQ'') (Some (str ''user-1''))
             (str ''Hello World'', str ''[00:01] Hello'', str ''en'', str ''Unknown'', str ''Unknown'')
             (called ProfileSelect (called AuthGetUser (storeWith p n)))"
proof (rule POST_past_transcript [OF example_valid example_resolve example_authenticate])
  show "creditsCheck (Some (str ''user-1'')) (called AuthGetUser (storeWith p n)) =
          (False, called ProfileSelect (called AuthGetUser (storeWith p n)))"
    using assms by (simp add: example_creditsCheck)
  show "obtainTranscript offline clientRequest (str ''dQw4w9WgXcQ'')
          (called ProfileSelect (called AuthGetUser (storeWith p n))) =
        (Inr (str ''Hello World'', str ''[00:01] Hello'', str ''en'', str ''Unknown'', str ''Unknown''),
         called ProfileSelect (called AuthGetUser (storeWith p n)))"
    by (rule example_obtain)
qed

text \<open>
  Claim C8. Once the transcript is there (the input was accepted, the account was not
  rejected, and the client's transcript or the server's extraction gave a text), the
  handler answers with the success body and the full transcript, whatever the summary
  backends do. An exception of a backend becomes the field \<open>summaryError\<close> (its message,
  or \<^verbatim>\<open>Unknown summary error\<close> when it has none) next to an absent summary, and so
  does the absence of a usable key.
\<close>

theorem summary_never_aborts:
  "((truthy (videoUrl req) \<or> clientTranscript req \<noteq> None) \<and> resolveVideoId req = Some (Some videoId) \<and>
    authenticate w req st = (userId, st1) \<and> creditsCheck userId st1 = (False, st2) \<and>
    obtainTranscript w req videoId st2 = (Inr (plain, stamped, language, ttl, channel), st3)
    \<longrightarrow> (\<exists>body. fst (POST w req st) = Ok body \<and> r_text body = plain \<and> r_timestamped body = stamped \<and>
           r_language body = language \<and>
           (r_summary body, r_summaryError body) =
             fst (summaryStage w (withSummary req) plain (ttl, channel) st3))) \<and>
   (wanted \<and> plain \<noteq> [] \<and> usable (geminiKey w) \<and>
      generateSummaryGemini w plain meta (the (geminiKey w)) = Inl message
      \<longrightarrow> fst (summaryStage w wanted plain meta st) =
            (None, Some (if message = [] then str ''Unknown summary error'' else message))) \<and>
   (wanted \<and> plain \<noteq> [] \<and> \<not> usable (geminiKey w) \<and> usable (anthropicKey w) \<and>
      generateSummary w plain meta (the (anthropicKey w)) = Inl message
      \<longrightarrow> fst (summaryStage w wanted plain meta st) =
            (None, Some (if message = [] then str ''Unknown summary error'' else message))) \<and>
   (wanted \<and> plain \<noteq> [] \<and> \<not> usable (geminiKey w) \<and> \<not> usable (anthropicKey w)
      \<longrightarrow> fst (summaryStage w wanted plain meta st) =
            (None, Some (str ''No AI key configured (GEMINI_API_KEY or ANTHROPIC_API_KEY)'')))"
proof -
  have "\<exists>body. fst (POST w req st) = Ok body \<and> r_text body = plain \<and> r_timestamped body = stamped \<and>
           r_language body = language \<and>
           (r_summary body, r_summaryError body) =
             fst (summaryStage w (withSummary req) plain (ttl, channel) st3)"
    if a: "(truthy (videoUrl req) \<or> clientTranscript req \<noteq> None) \<and> resolveVideoId req = Some (Some videoId) \<and>
      authenticate w req st = (userId, st1) \<and> creditsCheck userId st1 = (False, st2) \<and>
      obtainTranscript w req videoId st2 = (Inr (plain, stamped, language, ttl, channel), st3)"
  proof -
    have "POST w req st = completeRequest w req videoId userId (plain, stamped, language, ttl, channel) st3"
      using a by (intro POST_past_transcript) auto
    with completeRequest_Ok [of w req videoId userId plain stamped language ttl channel st3]
    show ?thesis by auto
  qed
  with summaryStage_outcomes [of wanted plain w meta message st] show ?thesis
    by blast
qed

text \<open>The example request: the Gemini backend throws, and the answer is the success body
  with the transcript and the message of the exception.\<close>

theorem summary_never_aborts_witness:
  "\<exists>body. fst (POST offline clientRequest (storeWith (str ''pro'') 3)) = Ok body \<and>
      r_text body = str ''Hello World'' \<and> r_timestamped body = str ''[00:01] Hello'' \<and>
      r_language body = str ''en'' \<and> r_summary body = None \<and>
      r_summaryError body = Some (str ''Gemini API error: 500 - overloaded'')"
proof -
  let ?st = "storeWith (str ''pro'') 3"
  have c: "creditsCheck (Some (str ''user-1'')) (called AuthGetUser ?st) =
             (False, called ProfileSelect (called AuthGetUser ?st))"
    by (simp add: example_creditsCheck)
  from summary_never_aborts
         [of clientRequest "str ''dQw4w9WgXcQ''" offline ?st "Some (str ''user-1'')" "called AuthGetUser ?st"
             "called ProfileSelect (called AuthGetUser ?st)"
             "str ''Hello World''" "str ''[00:01] Hello''" "str ''en''" "str ''Unknown''" "str ''Unknown''"
             "called ProfileSelect (called AuthGetUser ?st)"]
    example_valid example_resolve example_authenticate [of ?st] c
    example_obtain [of "str ''dQw4w9WgXcQ''" "called ProfileSelect (called AuthGetUser ?st)"]
  obtain body where b: "fst (POST offline clientRequest ?st) = Ok body" "r_text body = str ''Hello World''"
      "r_timestamped body = str ''[00:01] Hello''" "r_language body = str ''en''"
      "(r_summary body, r_summaryError body) =
         fst (summaryStage offline (withSummary clientRequest) (str ''Hello World'')
               (str ''Unknown'', str ''Unknown'') (called ProfileSelect (called AuthGetUser ?st)))"
    by blast
  have "withSummary clientRequest = True" by (simp add: clientRequest_def)
  with b(5) have "r_summary body = None \<and> r_summaryError body = Some (str ''Gemini API error: 500 - overloaded'')"
    by (simp add: example_summary)
  with b show ?thesis by blast
qed

text \<open>
  Claim C9, as the code has it. A request that passes the validation of its input (a
  video identifier is resolved), that carries an authorization header for which the
  identity service knows a user, whose profile is on the free plan with zero credits or
  less, is answered with status 402. Up to there the handler has asked the identity
  service and read the profile, and nothing else: no metadata, page, caption or summary
  call, no insert; the profiles and the transcriptions are as they were.
\<close>

theorem quota_rejected_before_network:
  "(truthy (videoUrl req) \<or> clientTranscript req \<noteq> None) \<and> resolveVideoId req = Some (Some videoId) \<and>
   truthy (authorization req) \<and>
   getUser w (replaceFirst (str ''Bearer '') [] (the (authorization req))) = Some u \<and> u \<noteq> [] \<and>
   profiles st u = Some p \<and> plan p = str ''free'' \<and> credits_remaining p \<le> 0
   \<longrightarrow> POST w req st =
         (Error 402 (str ''Monthly free limit reached. Upgrade to Pro for more.'') False,
          st\<lparr>calls := calls st @ [AuthGetUser, ProfileSelect]\<rparr>)"
  by (auto simp: POST_def authenticate_def creditsCheck_def called_def truthy_def Let_def)

theorem quota_rejected_before_network_witness:
  "POST offline clientRequest (storeWith (str ''free'') 0) =
     (Error 402 (str ''Monthly free limit reached. Upgrade to Pro for more.'') False,
      (storeWith (str ''free'') 0)\<lparr>calls := calls (storeWith (str ''free'') 0) @ [AuthGetUser, ProfileSelect]\<rparr>)"
proof -
  have a: "truthy (authorization clientRequest)"
    "getUser offline (replaceFirst (str ''Bearer '') [] (the (authorization clientRequest))) = Some (str ''user-1'')"
    "str ''user-1'' \<noteq> []"
    by (simp_all add: clientRequest_def truthy_def example_token offline_def) (simp_all add: str_def)
  have b: "profiles (storeWith (str ''free'') 0) (str ''user-1'') = Some \<lparr>plan = str ''free'', credits_remaining = 0\<rparr>"
    by (simp add: storeWith_def)
  have h: "(truthy (videoUrl clientRequest) \<or> clientTranscript clientRequest \<noteq> None) \<and>
     resolveVideoId clientRequest = Some (Some (str ''dQw4w9WgXcQ'')) \<and>
     truthy (authorization clientRequest) \<and>
     getUser offline (replaceFirst (str ''Bearer '') [] (the (authorization clientRequest))) =
       Some (str ''user-1'') \<and>
     str ''user-1'' \<noteq> [] \<and>
     profiles (storeWith (str ''free'') 0) (str ''user-1'') =
       Some \<lparr>plan = str ''free'', credits_remaining = 0\<rparr> \<and>
     plan \<lparr>plan = str ''free'', credits_remaining = 0\<rparr> = str ''free'' \<and>
     credits_remaining \<lparr>plan = str ''free'', credits_remaining = 0\<rparr> \<le> 0"
    using example_valid example_resolve a b by simp
  from quota_rejected_before_network
         [of clientRequest "str ''dQw4w9WgXcQ''" offline "str ''user-1''" "storeWith (str ''free'') 0"
             "\<lparr>plan = str ''free'', credits_remaining = 0\<rparr>"] h
  show ?thesis by (rule mp)
qed

text \<open>Against claim C9 as stated: the same account, authenticated, free plan, zero
  credits, sends a request whose URL holds no video identifier; the answer is 400
  \<^verbatim>\<open>Invalid YouTube URL\<close>, not the quota error.\<close>

theorem quota_invalid_input_counterexample:
  "getUser offline (replaceFirst (str ''Bearer '') [] (str ''Bearer token-1'')) = Some (str ''user-1'') \<and>
   profiles (storeWith (str ''free'') 0) (str ''user-1'') = Some \<lparr>plan = str ''free'', credits_remaining = 0\<rparr> \<and>
   fst (POST offline
          \<lparr>videoUrl = Some (str ''not a video''), clientTranscript = None, withSummary = True,
           authorization = Some (str ''Bearer token-1'')\<rparr>
          (storeWith (str ''free'') 0)) =
     Error 400 (str ''Invalid YouTube URL'') False"
proof -
  have "extractVideoId (str ''not a video'') = None" by code_simp
  then have "resolveVideoId \<lparr>videoUrl = Some (str ''not a video''), clientTranscript = None, withSummary = True,
           authorization = Some (str ''Bearer token-1'')\<rparr> = Some None"
    by (simp add: resolveVideoId_def)
  then have "fst (POST offline
          \<lparr>videoUrl = Some (str ''not a video''), clientTranscript = None, withSummary = True,
           authorization = Some (str ''Bearer token-1'')\<rparr>
          (storeWith (str ''free'') 0)) =
     Error 400 (str ''Invalid YouTube URL'') False"
    by (simp add: POST_def truthy_def) (simp add: str_def)
  moreover have "getUser offline (replaceFirst (str ''Bearer '') [] (str ''Bearer token-1'')) = Some (str ''user-1'')"
    by (simp add: example_token offline_def)
  moreover have "profiles (storeWith (str ''free'') 0) (str ''user-1'') =
      Some \<lparr>plan = str ''free'', credits_remaining = 0\<rparr>"
    by (simp add: storeWith_def)
  ultimately show ?thesis by blast
qed

text \<open>
  Claim C10. The decrement reads the profile of the account and writes one credit less
  only when the number read is positive; the plan is not looked at. After a successful
  request of an authenticated account the table of profiles is the old one with this
  decrement for that account. Whatever the request and its outcome, if no account had a
  negative number of credits before, none has one after.
\<close>

theorem credits_decrement:
  "profiles (decrementCredits u st) = debit u (profiles st) \<and>
   debit u table u =
     (case table u of
        None \<Rightarrow> None
      | Some p \<Rightarrow>
          Some (p\<lparr>credits_remaining :=
                     (if 0 < credits_remaining p then credits_remaining p - 1 else credits_remaining p)\<rparr>)) \<and>
   (v \<noteq> u \<longrightarrow> debit u table v = table v) \<and>
   (fst (POST w req st) = Ok body \<and> fst (authenticate w req st) = Some u
      \<longrightarrow> profiles (snd (POST w req st)) = debit u (profiles st)) \<and>
   ((\<forall>a q. profiles st a = Some q \<longrightarrow> 0 \<le> credits_remaining q)
      \<longrightarrow> (\<forall>a q. profiles (snd (POST w req st)) a = Some q \<longrightarrow> 0 \<le> credits_remaining q))"
proof (intro conjI impI)
  show "profiles (decrementCredits u st) = debit u (profiles st)"
    by (rule decrementCredits_profiles)
  show "debit u table u =
     (case table u of
        None \<Rightarrow> None
      | Some p \<Rightarrow>
          Some (p\<lparr>credits_remaining :=
                     (if 0 < credits_remaining p then credits_remaining p - 1 else credits_remaining p)\<rparr>))"
    by (simp add: debit_def split: option.splits)
next
  assume "v \<noteq> u"
  then show "debit u table v = table v"
    by (simp add: debit_def split: option.splits)
next
  assume a: "fst (POST w req st) = Ok body \<and> fst (authenticate w req st) = Some u"
  then obtain videoId t st3 where
    "POST w req st = completeRequest w req videoId (fst (authenticate w req st)) t st3"
    "profiles st3 = profiles st"
    using POST_Ok_D [of w req st body] by blast
  with a show "profiles (snd (POST w req st)) = debit u (profiles st)"
    by (simp add: completeRequest_profiles)
next
  assume inv: "\<forall>a q. profiles st a = Some q \<longrightarrow> 0 \<le> credits_remaining q"
  show "\<forall>a q. profiles (snd (POST w req st)) a = Some q \<longrightarrow> 0 \<le> credits_remaining q"
  proof (intro allI impI)
    fix a q
    assume q: "profiles (snd (POST w req st)) a = Some q"
    from POST_profiles [of w req st] show "0 \<le> credits_remaining q"
    proof
      assume "profiles (snd (POST w req st)) = profiles st"
      with q inv show ?thesis by simp
    next
      assume "\<exists>u. profiles (snd (POST w req st)) = debit u (profiles st)"
      then obtain u' where "profiles (snd (POST w req st)) = debit u' (profiles st)" by blast
      with q have "debit u' (profiles st) a = Some q" by simp
      with inv show ?thesis using debit_nonneg [of "profiles st" u' a q] by blast
    qed
  qed
qed

text \<open>The example request of an account on the \<^verbatim>\<open>pro\<close> plan with three credits: two
  are left; and of an account on the free plan with one credit: none is left.\<close>

theorem credits_decrement_witness:
  "profiles (snd (POST offline clientRequest (storeWith (str ''pro'') 3))) (str ''user-1'') =
     Some \<lparr>plan = str ''pro'', credits_remaining = 2\<rparr> \<and>
   profiles (snd (POST offline clientRequest (storeWith (str ''free'') 1))) (str ''user-1'') =
     Some \<lparr>plan = str ''free'', credits_remaining = 0\<rparr> \<and>
   0 \<le> credits_remaining
         (the (profiles (snd (POST offline clientRequest (storeWith (str ''free'') 1))) (str ''user-1'')))"
proof -
  have ok: "\<exists>body. fst (POST offline clientRequest (storeWith p n)) = Ok body" if "\<not> (p = str ''free'' \<and> n \<le> 0)" for p n
    using example_POST [OF that]
      completeRequest_Ok [of offline clientRequest "str ''dQw4w9WgXcQ''" "Some (str ''user-1'')"
        "str ''Hello World''" "str ''[00:01] Hello''" "str ''en''" "str ''Unknown''" "str ''Unknown''"
        "called ProfileSelect (called AuthGetUser (storeWith p n))"]
    by auto
  have au: "fst (authenticate offline clientRequest st) = Some (str ''user-1'')" for st
    by (simp add: example_authenticate)
  have pro: "str ''pro'' \<noteq> str ''free''" by (simp add: str_def)
  from ok [of "str ''pro''" 3] pro obtain b1 where b1: "fst (POST offline clientRequest (storeWith (str ''pro'') 3)) = Ok b1"
    by auto
  from ok [of "str ''free''" 1] obtain b2 where b2: "fst (POST offline clientRequest (storeWith (str ''free'') 1)) = Ok b2"
    by auto
  have t1: "profiles (storeWith p n) (str ''user-1'') = Some \<lparr>plan = p, credits_remaining = n\<rparr>" for p n
    by (simp add: storeWith_def)
  note c1 = credits_decrement [of "str ''user-1''" "storeWith (str ''pro'') 3" "profiles (storeWith (str ''pro'') 3)" _ offline clientRequest b1]
  note c2 = credits_decrement [of "str ''user-1''" "storeWith (str ''free'') 1" "profiles (storeWith (str ''free'') 1)" _ offline clientRequest b2]
  have "profiles (snd (POST offline clientRequest (storeWith (str ''pro'') 3))) (str ''user-1'') =
     Some \<lparr>plan = str ''pro'', credits_remaining = 2\<rparr>"
    using c1 b1 au by (simp add: t1)
  moreover have "profiles (snd (POST offline clientRequest (storeWith (str ''free'') 1))) (str ''user-1'') =
     Some \<lparr>plan = str ''free'', credits_remaining = 0\<rparr>"
    using c2 b2 au by (simp add: t1)
  moreover have "\<forall>a q. profiles (storeWith (str ''free'') 1) a = Some q \<longrightarrow> 0 \<le> credits_remaining q"
    by (auto simp: storeWith_def split: if_splits)
  with c2 have "\<forall>a q. profiles (snd (POST offline clientRequest (storeWith (str ''free'') 1))) a = Some q
      \<longrightarrow> 0 \<le> credits_remaining q"
    by blast
  ultimately show ?thesis by simp
qed

end
